theory Spec2Isabelle
  imports Complex_Main "HOL-Library.AList"
begin

section \<open>Tables\<close>

text \<open>
  A pandas table is an ordered list of named columns; a column is a list of cells. A cell
  is what the program's sources of data put there: a number (an int64 or a finite float64,
  as the real it is; NaN apart), a string, a boolean or a calendar date (a day number,
  counted from 1970-01-01). Python and pandas compare numbers exactly, so comparisons are
  made on the reals. Arithmetic is not: it rounds in float64 and wraps around in int64,
  and a cell does not say which of the two its column is. It is left to the library, see
  \<open>pandas\<close> below.
\<close>

datatype cell = Num real | NaN | Str string | Bool bool | DateV int

type_synonym series = "cell list"

type_synonym dataframe = "(string \<times> series) list"

datatype error =
    ValueError string
  | TypeError
  | KeyError string
  | ParserError
  | OverflowError

text \<open>\<open>df.columns\<close>, \<open>df[k]\<close> and \<open>df[k] = v\<close>. Assigning to a name the table has
  replaces that column where it stands; a new name is appended as the last column.\<close>

definition columns :: "dataframe \<Rightarrow> string list" where
  "columns df = map fst df"

definition getitem :: "dataframe \<Rightarrow> string \<Rightarrow> error + series" where
  "getitem df k = (case map_of df k of None \<Rightarrow> Inl (KeyError k) | Some s \<Rightarrow> Inr s)"

definition setitem :: "dataframe \<Rightarrow> string \<Rightarrow> series \<Rightarrow> dataframe" where
  "setitem df k v = AList.update k v df"

text \<open>Python's \<open>x < c\<close> and \<open>x > c\<close> for a cell and a number: NaN compares false with
  everything, a boolean counts as 0 or 1, a string or a date raises TypeError (\<open>None\<close>).\<close>

fun py_lt :: "cell \<Rightarrow> real \<Rightarrow> bool option" where
  "py_lt (Num x) c = Some (x < c)"
| "py_lt NaN c = Some False"
| "py_lt (Bool b) c = Some ((if b then 1 else 0) < c)"
| "py_lt (Str s) c = None"
| "py_lt (DateV d) c = None"

fun py_gt :: "cell \<Rightarrow> real \<Rightarrow> bool option" where
  "py_gt (Num x) c = Some (x > c)"
| "py_gt NaN c = Some False"
| "py_gt (Bool b) c = Some ((if b then 1 else 0) > c)"
| "py_gt (Str s) c = None"
| "py_gt (DateV d) c = None"

text \<open>\<open>Series.apply(f)\<close>: \<open>f\<close> on every cell in order; the first exception ends it.\<close>

fun apply_series :: "(cell \<Rightarrow> error + cell) \<Rightarrow> series \<Rightarrow> error + series" where
  "apply_series f [] = Inr []"
| "apply_series f (c # cs) =
     (case f c of
        Inl e \<Rightarrow> Inl e
      | Inr v \<Rightarrow> (case apply_series f cs of Inl e \<Rightarrow> Inl e | Inr vs \<Rightarrow> Inr (v # vs)))"

text \<open>\<open>series == s\<close> and \<open>series.isin(values)\<close> for strings: exact equality, cell by cell;
  a cell that is not a string is equal to none.\<close>

definition series_eq :: "series \<Rightarrow> string \<Rightarrow> series" where
  "series_eq s v = map (\<lambda>c. Bool (c = Str v)) s"

definition isin :: "series \<Rightarrow> string list \<Rightarrow> series" where
  "isin s vs = map (\<lambda>c. Bool (c \<in> set (map Str vs))) s"

section \<open>The store of tables\<close>

text \<open>
  Tables are objects: a variable holds a reference, \<open>df[k] = v\<close> changes the object in
  place, and \<open>copy()\<close> makes a new object with the same contents. The store maps every
  reference to its table; \<open>next_ref\<close> is the first reference not yet given out.
\<close>

type_synonym ref = nat

record store =
  objs :: "ref \<Rightarrow> dataframe"
  next_ref :: ref

definition df_copy :: "ref \<Rightarrow> store \<Rightarrow> ref \<times> store" where
  "df_copy r h =
     (next_ref h, h\<lparr>objs := (objs h)(next_ref h := objs h r), next_ref := Suc (next_ref h)\<rparr>)"

definition df_setitem :: "ref \<Rightarrow> string \<Rightarrow> series \<Rightarrow> store \<Rightarrow> store" where
  "df_setitem r k v h = h\<lparr>objs := (objs h)(r := setitem (objs h r) k v)\<rparr>"

section \<open>create_weather_categories\<close>

definition categorize_temp :: "cell \<Rightarrow> error + cell" where
  "categorize_temp temp =
     (case py_lt temp 32 of
        None \<Rightarrow> Inl TypeError
      | Some True \<Rightarrow> Inr (Str ''Freezing'')
      | Some False \<Rightarrow>
     (case py_lt temp 50 of
        None \<Rightarrow> Inl TypeError
      | Some True \<Rightarrow> Inr (Str ''Cold'')
      | Some False \<Rightarrow>
     (case py_lt temp 70 of
        None \<Rightarrow> Inl TypeError
      | Some True \<Rightarrow> Inr (Str ''Mild'')
      | Some False \<Rightarrow>
     (case py_lt temp 85 of
        None \<Rightarrow> Inl TypeError
      | Some True \<Rightarrow> Inr (Str ''Warm'')
      | Some False \<Rightarrow> Inr (Str ''Hot'')))))"

text \<open>The first block of the function: \<open>temp_category\<close> from \<open>temp_avg\<close>, when that
  column is there. An exception of \<open>categorize_temp\<close> leaves the function.\<close>

definition set_temp_category :: "ref \<Rightarrow> store \<Rightarrow> error + store" where
  "set_temp_category df h =
     (if ''temp_avg'' \<in> set (columns (objs h df)) then
        (case getitem (objs h df) ''temp_avg'' of
           Inl e \<Rightarrow> Inl e
         | Inr s \<Rightarrow>
             (case apply_series categorize_temp s of
                Inl e \<Rightarrow> Inl e
              | Inr cats \<Rightarrow> Inr (df_setitem df ''temp_category'' cats h)))
      else Inr h)"

text \<open>The second block: the three flags from \<open>weather_main\<close>, one assignment after the
  other, each reading the column from the table as it then is.\<close>

definition set_is_clear :: "ref \<Rightarrow> store \<Rightarrow> error + store" where
  "set_is_clear df h =
     (case getitem (objs h df) ''weather_main'' of
        Inl e \<Rightarrow> Inl e
      | Inr s \<Rightarrow> Inr (df_setitem df ''is_clear'' (series_eq s ''Clear'') h))"

definition set_is_rainy :: "ref \<Rightarrow> store \<Rightarrow> error + store" where
  "set_is_rainy df h =
     (case getitem (objs h df) ''weather_main'' of
        Inl e \<Rightarrow> Inl e
      | Inr s \<Rightarrow>
          Inr (df_setitem df ''is_rainy'' (isin s [''Rain'', ''Drizzle'', ''Thunderstorm'']) h))"

definition set_is_snowy :: "ref \<Rightarrow> store \<Rightarrow> error + store" where
  "set_is_snowy df h =
     (case getitem (objs h df) ''weather_main'' of
        Inl e \<Rightarrow> Inl e
      | Inr s \<Rightarrow> Inr (df_setitem df ''is_snowy'' (isin s [''Snow'', ''Sleet'']) h))"

definition set_flags :: "ref \<Rightarrow> store \<Rightarrow> error + store" where
  "set_flags df h =
     (if ''weather_main'' \<in> set (columns (objs h df)) then
        (case set_is_clear df h of
           Inl e \<Rightarrow> Inl e
         | Inr h1 \<Rightarrow>
             (case set_is_rainy df h1 of
                Inl e \<Rightarrow> Inl e
              | Inr h2 \<Rightarrow> set_is_snowy df h2))
      else Inr h)"

text \<open>The function takes the reference of its argument and the store, and returns the
  reference of the new table, or the exception raised, with the store as it has become.\<close>

definition create_weather_categories :: "ref \<Rightarrow> store \<Rightarrow> (error + ref) \<times> store" where
  "create_weather_categories weather_df h =
     (case df_copy weather_df h of
        (df, h0) \<Rightarrow>
          (case set_temp_category df h0 of
             Inl e \<Rightarrow> (Inl e, h0)
           | Inr h1 \<Rightarrow>
               (case set_flags df h1 of
                  Inl e \<Rightarrow> (Inl e, h1)
                | Inr h2 \<Rightarrow> (Inr df, h2))))"


section \<open>The numeric operations of pandas\<close>

text \<open>
  The repository calls \<open>mean\<close>, \<open>min\<close>, \<open>max\<close> and \<open>sum\<close> of a column, and \<open>+\<close> and
  \<open>/\<close> on columns. They are the library's, computed in the machine type of the column,
  and are parameters here: an operation gives what the library returns, or the exception
  it raises.
\<close>

record pandas =
  series_mean :: "series \<Rightarrow> error + cell"
  series_min :: "series \<Rightarrow> error + cell"
  series_max :: "series \<Rightarrow> error + cell"
  series_sum :: "series \<Rightarrow> error + cell"
  series_add :: "series \<Rightarrow> series \<Rightarrow> error + series"
  series_truediv :: "series \<Rightarrow> real \<Rightarrow> error + series"

text \<open>
  Two operations on columns are exact and are written out. \<open>series > c\<close> compares cell by
  cell. The \<open>sum\<close> of a column of booleans is the number of its \<open>True\<close> cells, an int64;
  \<open>sum\<close> of any other column is the library's \<open>series_sum\<close>.
\<close>

definition series_gt :: "series \<Rightarrow> real \<Rightarrow> error + series" where
  "series_gt s c =
     apply_series (\<lambda>x. case py_gt x c of None \<Rightarrow> Inl TypeError | Some b \<Rightarrow> Inr (Bool b)) s"


definition int64 :: "int \<Rightarrow> int" where
  "int64 n = (n + 2 ^ 63) mod 2 ^ 64 - 2 ^ 63"


section \<open>get_weather_summary\<close>









section \<open>load_noaa_weather_data\<close>

definition column_mapping :: "(string \<times> string) list" where
  "column_mapping =
     [(''TMAX'', ''temp_max''), (''TMIN'', ''temp_min''), (''PRCP'', ''precipitation''),
      (''AWND'', ''wind_speed''), (''SNOW'', ''snow''), (''SNWD'', ''snow_depth'')]"

text \<open>The loop over \<open>column_mapping.items()\<close>, in the order of the dictionary.\<close>

fun map_columns :: "(string \<times> string) list \<Rightarrow> dataframe \<Rightarrow> error + dataframe" where
  "map_columns [] df = Inr df"
| "map_columns ((old_col, new_col) # rest) df =
     (if old_col \<in> set (columns df) then
        (case getitem df old_col of
           Inl e \<Rightarrow> Inl e
         | Inr s \<Rightarrow> map_columns rest (setitem df new_col s))
      else map_columns rest df)"

definition derive_temp_avg :: "pandas \<Rightarrow> dataframe \<Rightarrow> error + dataframe" where
  "derive_temp_avg pd df =
     (if ''temp_max'' \<in> set (columns df) \<and> ''temp_min'' \<in> set (columns df) then
        (case getitem df ''temp_max'' of
           Inl e \<Rightarrow> Inl e
         | Inr mx \<Rightarrow>
        (case getitem df ''temp_min'' of
           Inl e \<Rightarrow> Inl e
         | Inr mn \<Rightarrow>
        (case series_add pd mx mn of
           Inl e \<Rightarrow> Inl e
         | Inr tot \<Rightarrow>
        (case series_truediv pd tot 2 of
           Inl e \<Rightarrow> Inl e
         | Inr avg \<Rightarrow> Inr (setitem df ''temp_avg'' avg)))))
      else Inr df)"

definition derive_is_rainy :: "dataframe \<Rightarrow> error + dataframe" where
  "derive_is_rainy df =
     (if ''precipitation'' \<in> set (columns df) then
        (case getitem df ''precipitation'' of
           Inl e \<Rightarrow> Inl e
         | Inr p \<Rightarrow>
             (case series_gt p 0 of
                Inl e \<Rightarrow> Inl e
              | Inr wet \<Rightarrow> Inr (setitem df ''is_rainy'' wet)))
      else Inr df)"

text \<open>
  \<open>read_csv\<close> is the file system seen through \<open>pd.read_csv\<close>: the table of a path, or the
  exception. \<open>to_date\<close> is \<open>pd.to_datetime(...).dt.date\<close> on a column: the dates, or the
  exception of a value that does not parse.
\<close>

definition load_noaa_weather_data ::
  "pandas \<Rightarrow> (string \<Rightarrow> error + dataframe) \<Rightarrow> (series \<Rightarrow> error + series) \<Rightarrow> string
     \<Rightarrow> error + dataframe"
where
  "load_noaa_weather_data pd read_csv to_date file_path =
     (case read_csv file_path of
        Inl e \<Rightarrow> Inl e
      | Inr df \<Rightarrow>
     (case getitem df ''DATE'' of
        Inl e \<Rightarrow> Inl e
      | Inr d \<Rightarrow>
     (case to_date d of
        Inl e \<Rightarrow> Inl e
      | Inr dates \<Rightarrow>
     (case map_columns column_mapping (setitem df ''date'' dates) of
        Inl e \<Rightarrow> Inl e
      | Inr df1 \<Rightarrow>
     (case derive_temp_avg pd df1 of
        Inl e \<Rightarrow> Inl e
      | Inr df2 \<Rightarrow> derive_is_rainy df2)))))"


section \<open>fetch_historical_weather\<close>

text \<open>
  A \<open>datetime\<close> is a point of the naive timeline, in microseconds from 1970-01-01
  00:00; \<open>.date()\<close> is the number of the day. The type ends with the last microsecond
  of the year 9999: \<open>current_date + timedelta(days=1)\<close> beyond it raises OverflowError.
\<close>

type_synonym datetime = int

definition one_day :: int where
  "one_day = 86400000000"

definition datetime_max :: datetime where
  "datetime_max = 253402300799999999"

definition date_of :: "datetime \<Rightarrow> int" where
  "date_of t = t div one_day"

definition add_day :: "datetime \<Rightarrow> error + datetime" where
  "add_day t = (if t + one_day \<le> datetime_max then Inr (t + one_day) else Inl OverflowError)"

definition DC_LAT :: real where
  "DC_LAT = 38.9072"

definition DC_LON :: real where
  "DC_LON = - 77.0369"

definition base_url :: string where
  "base_url = ''https://api.openweathermap.org/data/2.5/onecall/timemachine''"

record request =
  url :: string
  lat :: real
  lon :: real
  dt :: int
  appid :: string
  units :: string

text \<open>What the program reads from the block \<open>current\<close> of a response.\<close>

record observation =
  temp :: cell
  feels_like :: cell
  humidity :: cell
  clouds :: cell
  wind_speed :: cell
  weather_main :: cell
  weather_desc :: cell

text \<open>
  The network: \<open>requests.get\<close> raises, or returns a response with a status code and a
  body. The body is the observation the program extracts from it, or the exception the
  extraction raises (not JSON, a key or the first weather entry missing). The \<open>n\<close>-th call
  of the run (from 0) with request \<open>r\<close> is answered by \<open>net n r\<close>.

  The clock of the platform: \<open>mktime t\<close> is \<open>int(time.mktime(t.timetuple()))\<close>, the
  timestamp of a local time, or the exception for a time the platform cannot convert.
\<close>

datatype reply = Raised error | Response int "error + observation"

datatype message =
    Fetching int int
  | Fetched int
  | RateLimit
  | StatusError int int
  | FetchError datetime error
  | Summary nat

datatype event = Get request | Sleep nat | Print message

fun is_get :: "event \<Rightarrow> bool" where
  "is_get (Get r) = True"
| "is_get (Sleep n) = False"
| "is_get (Print m) = False"

definition n_calls :: "event list \<Rightarrow> nat" where
  "n_calls tr = length (filter is_get tr)"

record loop_state =
  current_date :: datetime
  weather_data :: "(int \<times> observation) list"
  trace :: "event list"

text \<open>How the \<open>try\<close> block of one iteration ends: it raises, it reaches \<open>continue\<close>, or
  it runs to its end.\<close>

datatype flow = Continue | FallThrough

definition try_block ::
  "(nat \<Rightarrow> request \<Rightarrow> reply) \<Rightarrow> request \<Rightarrow> loop_state \<Rightarrow> (error + flow) \<times> loop_state"
where
  "try_block net params s =
     (let s1 = s\<lparr>trace := trace s @ [Get params]\<rparr>
      in case net (n_calls (trace s)) params of
           Raised e \<Rightarrow> (Inl e, s1)
         | Response status_code body \<Rightarrow>
             if status_code = 200 then
               (case body of
                  Inl e \<Rightarrow> (Inl e, s1)
                | Inr daily_data \<Rightarrow>
                    (Inr FallThrough,
                     s1\<lparr>weather_data := weather_data s1 @ [(date_of (current_date s1), daily_data)],
                        trace := trace s1 @ [Print (Fetched (date_of (current_date s1))), Sleep 1]\<rparr>))
             else if status_code = 401 then (Inl (ValueError ''Invalid API key''), s1)
             else if status_code = 429 then
               (Inr Continue, s1\<lparr>trace := trace s1 @ [Print RateLimit, Sleep 60]\<rparr>)
             else
               (Inr FallThrough,
                s1\<lparr>trace := trace s1 @
                   [Print (StatusError status_code (date_of (current_date s1))), Sleep 1]\<rparr>))"

text \<open>The last statement of an iteration, after the \<open>try\<close>:
  \<open>current_date += timedelta(days=1)\<close>. Its exception leaves the function.\<close>

definition advance :: "loop_state \<Rightarrow> error option \<times> loop_state" where
  "advance s =
     (case add_day (current_date s) of
        Inl e \<Rightarrow> (Some e, s)
      | Inr t \<Rightarrow> (None, s\<lparr>current_date := t\<rparr>))"

text \<open>
  One iteration of the \<open>while\<close> loop: the exception that leaves the function, if any,
  and the state. The timestamp is taken before the \<open>try\<close>, so an exception of the
  clock leaves the function. \<open>except Exception\<close> catches whatever the \<open>try\<close> block
  raises, prints it, and the iteration goes on to advance the date.
\<close>

definition loop_body ::
  "(datetime \<Rightarrow> error + int) \<Rightarrow> (nat \<Rightarrow> request \<Rightarrow> reply) \<Rightarrow> string \<Rightarrow> loop_state
     \<Rightarrow> error option \<times> loop_state"
where
  "loop_body mktime net api_key s =
     (case mktime (current_date s) of
        Inl e \<Rightarrow> (Some e, s)
      | Inr timestamp \<Rightarrow>
          (let params = \<lparr>url = base_url, lat = DC_LAT, lon = DC_LON, dt = timestamp,
                         appid = api_key, units = ''imperial''\<rparr>
           in case try_block net params s of
                (Inr Continue, s1) \<Rightarrow> (None, s1)
              | (Inr FallThrough, s1) \<Rightarrow> advance s1
              | (Inl e, s1) \<Rightarrow>
                  advance (s1\<lparr>trace := trace s1 @ [Print (FetchError (current_date s1) e)]\<rparr>)))"

text \<open>The loop may run forever (a server that answers 429 without end): \<open>None\<close>.\<close>

partial_function (option) fetch_loop ::
  "(datetime \<Rightarrow> error + int) \<Rightarrow> (nat \<Rightarrow> request \<Rightarrow> reply) \<Rightarrow> string \<Rightarrow> datetime \<Rightarrow> loop_state
     \<Rightarrow> (error option \<times> loop_state) option"
where
  "fetch_loop mktime net api_key end_date s =
     (if current_date s \<le> end_date then
        (case loop_body mktime net api_key s of
           (Some e, s1) \<Rightarrow> Some (Some e, s1)
         | (None, s1) \<Rightarrow> fetch_loop mktime net api_key end_date s1)
      else Some (None, s))"

text \<open>\<open>pd.DataFrame(rows)\<close> of a list of dictionaries with the same keys, and \<open>len\<close>.\<close>

definition DataFrame :: "(int \<times> observation) list \<Rightarrow> dataframe" where
  "DataFrame rows =
     (if rows = [] then []
      else [(''date'', map (\<lambda>r. DateV (fst r)) rows),
            (''temp'', map (\<lambda>r. temp (snd r)) rows),
            (''feels_like'', map (\<lambda>r. feels_like (snd r)) rows),
            (''humidity'', map (\<lambda>r. humidity (snd r)) rows),
            (''clouds'', map (\<lambda>r. clouds (snd r)) rows),
            (''wind_speed'', map (\<lambda>r. wind_speed (snd r)) rows),
            (''weather_main'', map (\<lambda>r. weather_main (snd r)) rows),
            (''weather_desc'', map (\<lambda>r. weather_desc (snd r)) rows)])"

definition len :: "dataframe \<Rightarrow> nat" where
  "len df = (case df of [] \<Rightarrow> 0 | c # cs \<Rightarrow> length (snd c))"

text \<open>
  \<open>API_KEY\<close> is the module's global, read from the environment when the module is
  loaded. The result is \<open>None\<close> when the call never returns; otherwise the table or the
  exception, with everything the call did on the network, the clock and the console.
\<close>

definition fetch_historical_weather ::
  "string option \<Rightarrow> (datetime \<Rightarrow> error + int) \<Rightarrow> (nat \<Rightarrow> request \<Rightarrow> reply) \<Rightarrow>
     datetime \<Rightarrow> datetime \<Rightarrow> string option \<Rightarrow> ((error + dataframe) \<times> event list) option"
where
  "fetch_historical_weather API_KEY mktime net start_date end_date api_key =
     (let api_key = (if api_key = None then API_KEY else api_key)
      in case api_key of
           None \<Rightarrow>
             Some (Inl (ValueError ''API key not found. Set OPENWEATHER_API_KEY in .env file''), [])
         | Some key \<Rightarrow>
             if key = [] then
               Some (Inl (ValueError ''API key not found. Set OPENWEATHER_API_KEY in .env file''), [])
             else
               (case fetch_loop mktime net key end_date
                       \<lparr>current_date = start_date, weather_data = [],
                        trace = [Print (Fetching (date_of start_date) (date_of end_date))]\<rparr> of
                  None \<Rightarrow> None
                | Some (Some e, s) \<Rightarrow> Some (Inl e, trace s)
                | Some (None, s) \<Rightarrow>
                    (let df = DataFrame (weather_data s)
                     in Some (Inr df, trace s @ [Print (Summary (len df))]))))"


section \<open>Notions for the properties\<close>

text \<open>The cells Python compares with a number: everything but strings and dates.\<close>

fun numeric :: "cell \<Rightarrow> bool" where
  "numeric (Num x) = True"
| "numeric NaN = True"
| "numeric (Bool b) = True"
| "numeric (Str s) = False"
| "numeric (DateV d) = False"

text \<open>The store after a new table \<open>d\<close> has been created in it.\<close>

definition alloc :: "store \<Rightarrow> dataframe \<Rightarrow> store" where
  "alloc h d = h\<lparr>objs := (objs h)(next_ref h := d), next_ref := Suc (next_ref h)\<rparr>"

text \<open>The table \<open>create_weather_categories\<close> builds, as a function of the table it is given:
  the two blocks of the function on values.\<close>

definition temp_step :: "dataframe \<Rightarrow> error + dataframe" where
  "temp_step d =
     (case map_of d ''temp_avg'' of
        None \<Rightarrow> Inr d
      | Some s \<Rightarrow>
          (case apply_series categorize_temp s of
             Inl e \<Rightarrow> Inl e
           | Inr cats \<Rightarrow> Inr (setitem d ''temp_category'' cats)))"

definition flag_step :: "dataframe \<Rightarrow> dataframe" where
  "flag_step d =
     (case map_of d ''weather_main'' of
        None \<Rightarrow> d
      | Some s \<Rightarrow>
          setitem (setitem (setitem d ''is_clear'' (series_eq s ''Clear''))
            ''is_rainy'' (isin s [''Rain'', ''Drizzle'', ''Thunderstorm'']))
            ''is_snowy'' (isin s [''Snow'', ''Sleet'']))"

definition categories_of :: "dataframe \<Rightarrow> error + dataframe" where
  "categories_of d = (case temp_step d of Inl e \<Rightarrow> Inl e | Inr d1 \<Rightarrow> Inr (flag_step d1))"

text \<open>The column that the loader's output has under a canonical name: the source
  column of the file when it has one, else the file's own column of that name.\<close>

definition canonical :: "dataframe \<Rightarrow> string \<Rightarrow> string \<Rightarrow> series option" where
  "canonical df old_col new_col =
     (case map_of df old_col of None \<Rightarrow> map_of df new_col | Some s \<Rightarrow> Some s)"

text \<open>The request the loop sends with a timestamp, the credential the function works
  with, the state the loop starts in, and the state an iteration leaves.\<close>

definition request_for :: "string \<Rightarrow> int \<Rightarrow> request" where
  "request_for api_key timestamp =
     \<lparr>url = base_url, lat = DC_LAT, lon = DC_LON, dt = timestamp, appid = api_key,
      units = ''imperial''\<rparr>"

definition credential :: "string option \<Rightarrow> string option \<Rightarrow> string option" where
  "credential API_KEY api_key = (if api_key = None then API_KEY else api_key)"

definition initial :: "datetime \<Rightarrow> datetime \<Rightarrow> loop_state" where
  "initial start_date end_date =
     \<lparr>current_date = start_date, weather_data = [],
      trace = [Print (Fetching (date_of start_date) (date_of end_date))]\<rparr>"

definition iteration ::
  "(datetime \<Rightarrow> error + int) \<Rightarrow> (nat \<Rightarrow> request \<Rightarrow> reply) \<Rightarrow> string \<Rightarrow> loop_state \<Rightarrow> loop_state"
where
  "iteration mktime net api_key s = snd (loop_body mktime net api_key s)"

text \<open>
  A run of the loop from state \<open>s\<close> that ends with \<open>y\<close> after \<open>n\<close> completed iterations:
  each of them was entered (the date not after the end date) and raised nothing; then
  either the loop condition fails and \<open>y\<close> is the state reached, or the next iteration
  is entered and raises.
\<close>

definition ends_after ::
  "(datetime \<Rightarrow> error + int) \<Rightarrow> (nat \<Rightarrow> request \<Rightarrow> reply) \<Rightarrow> string \<Rightarrow> datetime \<Rightarrow> loop_state
     \<Rightarrow> error option \<times> loop_state \<Rightarrow> nat \<Rightarrow> bool"
where
  "ends_after mktime net api_key end_date s y n =
     ((\<forall>i<n. current_date ((iteration mktime net api_key ^^ i) s) \<le> end_date \<and>
              fst (loop_body mktime net api_key ((iteration mktime net api_key ^^ i) s)) = None) \<and>
      ((fst y = None \<and> snd y = (iteration mktime net api_key ^^ n) s \<and>
        end_date < current_date (snd y)) \<or>
       (\<exists>e. fst y = Some e \<and>
          current_date ((iteration mktime net api_key ^^ n) s) \<le> end_date \<and>
          loop_body mktime net api_key ((iteration mktime net api_key ^^ n) s) = (Some e, snd y))))"

text \<open>The library's answers on the columns of the examples below; all of them are exact
  in float64.\<close>

definition example_pandas :: pandas where
  "example_pandas =
     \<lparr>series_mean = (\<lambda>s. if s = [Num 50, NaN, Num 70] then Inr (Num 60) else Inl TypeError),
      series_min = (\<lambda>s. if s = [Num 50, NaN, Num 70] then Inr (Num 50) else Inl TypeError),
      series_max = (\<lambda>s. if s = [Num 50, NaN, Num 70] then Inr (Num 70) else Inl TypeError),
      series_sum = (\<lambda>s. if s = [Num 0, Num (1 / 2), Num 1] then Inr (Num (3 / 2))
                         else Inl TypeError),
      series_add = (\<lambda>a b. if a = [Num 60, Num 80] \<and> b = [Num 40, Num 70]
                           then Inr [Num 100, Num 150] else Inl TypeError),
      series_truediv = (\<lambda>a c. if a = [Num 100, Num 150] \<and> c = 2
                               then Inr [Num 50, Num 75] else Inl TypeError)\<rparr>"

section \<open>Tables: basic facts\<close>

lemma in_columns_iff: "k \<in> set (columns d) \<longleftrightarrow> map_of d k \<noteq> None"
  by (simp add: columns_def map_of_eq_None_iff)

lemma getitem_eq_Inr: "getitem d k = Inr s \<longleftrightarrow> map_of d k = Some s"
  by (simp add: getitem_def split: option.splits)

lemma map_of_setitem: "map_of (setitem d k v) = (map_of d)(k \<mapsto> v)"
  by (simp add: setitem_def update_conv')

lemma getitem_setitem:
  "getitem (setitem d k v) k' = (if k' = k then Inr v else getitem d k')"
  by (simp add: getitem_def map_of_setitem)

lemma columns_setitem: "set (columns (setitem d k v)) = insert k (set (columns d))"
  using dom_update [of k v d] by (simp add: columns_def setitem_def)

lemma setitem_same: "map_of d k = Some v \<Longrightarrow> setitem d k v = d"
  by (simp add: setitem_def update_triv)

lemma set_temp_category_eq:
  "set_temp_category r h =
     (case temp_step (objs h r) of
        Inl e \<Rightarrow> Inl e
      | Inr d \<Rightarrow> Inr (h\<lparr>objs := (objs h)(r := d)\<rparr>))"
  by (auto simp: set_temp_category_def temp_step_def in_columns_iff getitem_def df_setitem_def
      split: option.splits sum.splits)

lemma set_flags_eq:
  "set_flags r h = Inr (h\<lparr>objs := (objs h)(r := flag_step (objs h r))\<rparr>)"
  by (auto simp: set_flags_def flag_step_def set_is_clear_def set_is_rainy_def set_is_snowy_def
      in_columns_iff getitem_def df_setitem_def map_of_setitem
      split: option.splits)

lemma create_weather_categories_eq:
  "create_weather_categories r h =
     (case categories_of (objs h r) of
        Inl e \<Rightarrow> (Inl e, alloc h (objs h r))
      | Inr d \<Rightarrow> (Inr (next_ref h), alloc h d))"
  by (simp add: create_weather_categories_def df_copy_def set_temp_category_eq set_flags_eq
      categories_of_def alloc_def split: sum.splits)


lemma apply_series_Inr:
  assumes "\<forall>c \<in> set s. \<exists>v. f c = Inr v"
  shows "\<exists>vs. apply_series f s = Inr vs \<and> length vs = length s \<and>
           (\<forall>i < length s. f (s ! i) = Inr (vs ! i))"
  using assms
proof (induction s)
  case Nil
  then show ?case by simp
next
  case (Cons c cs)
  then obtain v where v: "f c = Inr v" by auto
  from Cons obtain vs where vs: "apply_series f cs = Inr vs" "length vs = length cs"
    "\<forall>i < length cs. f (cs ! i) = Inr (vs ! i)" by auto
  have "\<forall>i < length (c # cs). f ((c # cs) ! i) = Inr ((v # vs) ! i)"
    using v vs(3) by (auto simp: nth_Cons split: nat.splits)
  then show ?case using v vs by simp
qed

lemma categorize_temp_numeric: "numeric c \<Longrightarrow> \<exists>v. categorize_temp c = Inr v"
  by (cases c) (simp_all add: categorize_temp_def split: bool.splits)

lemma categorize_temp_Num:
  "categorize_temp (Num t) =
     Inr (Str (if t < 32 then ''Freezing'' else if t < 50 then ''Cold''
               else if t < 70 then ''Mild'' else if t < 85 then ''Warm'' else ''Hot''))"
  by (simp add: categorize_temp_def split: bool.splits)

lemma map_of_flag_step:
  "k \<notin> {''is_clear'', ''is_rainy'', ''is_snowy''} \<Longrightarrow> map_of (flag_step d) k = map_of d k"
  by (auto simp: flag_step_def map_of_setitem split: option.splits)

lemma map_of_temp_step:
  "temp_step d = Inr d1 \<Longrightarrow> k \<noteq> ''temp_category'' \<Longrightarrow> map_of d1 k = map_of d k"
  by (auto simp: temp_step_def map_of_setitem split: option.splits sum.splits)

lemma temp_step_numeric:
  assumes "map_of d ''temp_avg'' = Some temps" and "\<forall>c \<in> set temps. numeric c"
  shows "\<exists>cats. temp_step d = Inr (setitem d ''temp_category'' cats) \<and>
           length cats = length temps \<and>
           (\<forall>i < length temps. categorize_temp (temps ! i) = Inr (cats ! i))"
proof -
  from assms(2) have "\<forall>c \<in> set temps. \<exists>v. categorize_temp c = Inr v"
    by (simp add: categorize_temp_numeric)
  from apply_series_Inr [OF this] obtain cats where
    "apply_series categorize_temp temps = Inr cats" "length cats = length temps"
    "\<forall>i < length temps. categorize_temp (temps ! i) = Inr (cats ! i)" by blast
  then show ?thesis using assms(1) by (intro exI [of _ cats]) (simp add: temp_step_def)
qed

section \<open>Temperature categories\<close>

text \<open>
  C4. For a table with a column \<open>temp_avg\<close> of numbers, \<open>create_weather_categories\<close>
  returns a table whose column \<open>temp_category\<close> has, in every row, the category of that
  row's \<open>temp_avg\<close> by thresholds with inclusive lower bounds: below 32 Freezing, from 32
  and below 50 Cold, from 50 and below 70 Mild, from 70 and below 85 Warm, from 85 Hot; so
  exactly 32 is Cold, 50 Mild, 70 Warm and 85 Hot.
\<close>

theorem temp_category_thresholds:
  assumes "getitem (objs h weather_df) ''temp_avg'' = Inr temps"
    and "\<forall>c \<in> set temps. numeric c"
  shows "\<exists>df h' cats.
           create_weather_categories weather_df h = (Inr df, h') \<and>
           getitem (objs h' df) ''temp_category'' = Inr cats \<and>
           length cats = length temps \<and>
           (\<forall>i < length temps. \<forall>t. temps ! i = Num t \<longrightarrow>
              (t < 32 \<longrightarrow> cats ! i = Str ''Freezing'') \<and>
              (32 \<le> t \<and> t < 50 \<longrightarrow> cats ! i = Str ''Cold'') \<and>
              (50 \<le> t \<and> t < 70 \<longrightarrow> cats ! i = Str ''Mild'') \<and>
              (70 \<le> t \<and> t < 85 \<longrightarrow> cats ! i = Str ''Warm'') \<and>
              (85 \<le> t \<longrightarrow> cats ! i = Str ''Hot'') \<and>
              (t = 32 \<longrightarrow> cats ! i = Str ''Cold'') \<and>
              (t = 50 \<longrightarrow> cats ! i = Str ''Mild'') \<and>
              (t = 70 \<longrightarrow> cats ! i = Str ''Warm'') \<and>
              (t = 85 \<longrightarrow> cats ! i = Str ''Hot''))"
proof -
  let ?d = "objs h weather_df"
  from assms(1) have m: "map_of ?d ''temp_avg'' = Some temps"
    by (simp add: getitem_eq_Inr)
  from temp_step_numeric [OF m assms(2)] obtain cats where
    step: "temp_step ?d = Inr (setitem ?d ''temp_category'' cats)"
    and len: "length cats = length temps"
    and cat: "\<forall>i < length temps. categorize_temp (temps ! i) = Inr (cats ! i)" by blast
  let ?out = "flag_step (setitem ?d ''temp_category'' cats)"
  have run: "create_weather_categories weather_df h = (Inr (next_ref h), alloc h ?out)"
    by (simp add: create_weather_categories_eq categories_of_def step)
  have "map_of ?out ''temp_category'' = Some cats"
    by (simp add: map_of_flag_step map_of_setitem)
  then have col: "getitem (objs (alloc h ?out) (next_ref h)) ''temp_category'' = Inr cats"
    by (simp add: alloc_def getitem_eq_Inr)
  have rows: "\<forall>i < length temps. \<forall>t. temps ! i = Num t \<longrightarrow>
              (t < 32 \<longrightarrow> cats ! i = Str ''Freezing'') \<and>
              (32 \<le> t \<and> t < 50 \<longrightarrow> cats ! i = Str ''Cold'') \<and>
              (50 \<le> t \<and> t < 70 \<longrightarrow> cats ! i = Str ''Mild'') \<and>
              (70 \<le> t \<and> t < 85 \<longrightarrow> cats ! i = Str ''Warm'') \<and>
              (85 \<le> t \<longrightarrow> cats ! i = Str ''Hot'') \<and>
              (t = 32 \<longrightarrow> cats ! i = Str ''Cold'') \<and>
              (t = 50 \<longrightarrow> cats ! i = Str ''Mild'') \<and>
              (t = 70 \<longrightarrow> cats ! i = Str ''Warm'') \<and>
              (t = 85 \<longrightarrow> cats ! i = Str ''Hot'')"
  proof (intro allI impI)
    fix i t
    assume i: "i < length temps" and t: "temps ! i = Num t"
    from cat i t have "categorize_temp (Num t) = Inr (cats ! i)" by auto
    then have c: "cats ! i = Str (if t < 32 then ''Freezing'' else if t < 50 then ''Cold''
               else if t < 70 then ''Mild'' else if t < 85 then ''Warm'' else ''Hot'')"
      by (simp add: categorize_temp_Num)
    show "(t < 32 \<longrightarrow> cats ! i = Str ''Freezing'') \<and>
              (32 \<le> t \<and> t < 50 \<longrightarrow> cats ! i = Str ''Cold'') \<and>
              (50 \<le> t \<and> t < 70 \<longrightarrow> cats ! i = Str ''Mild'') \<and>
              (70 \<le> t \<and> t < 85 \<longrightarrow> cats ! i = Str ''Warm'') \<and>
              (85 \<le> t \<longrightarrow> cats ! i = Str ''Hot'') \<and>
              (t = 32 \<longrightarrow> cats ! i = Str ''Cold'') \<and>
              (t = 50 \<longrightarrow> cats ! i = Str ''Mild'') \<and>
              (t = 70 \<longrightarrow> cats ! i = Str ''Warm'') \<and>
              (t = 85 \<longrightarrow> cats ! i = Str ''Hot'')"
      unfolding c by simp
  qed
  from run col len rows show ?thesis by blast
qed

theorem temp_category_thresholds_witness:
  "\<exists>df h' cats.
     create_weather_categories 0
       \<lparr>objs = \<lambda>r. [(''temp_avg'', [Num 20, Num 40, Num 60, Num 80, Num 90,
                                    Num 32, Num 50, Num 70, Num 85])],
        next_ref = 1\<rparr> = (Inr df, h') \<and>
     getitem (objs h' df) ''temp_category'' = Inr cats \<and> length cats = 9 \<and>
     cats ! 0 = Str ''Freezing'' \<and> cats ! 1 = Str ''Cold'' \<and> cats ! 2 = Str ''Mild'' \<and>
     cats ! 3 = Str ''Warm'' \<and> cats ! 4 = Str ''Hot'' \<and> cats ! 5 = Str ''Cold'' \<and>
     cats ! 6 = Str ''Mild'' \<and> cats ! 7 = Str ''Warm'' \<and> cats ! 8 = Str ''Hot''"
proof -
  let ?T = "[Num 20, Num 40, Num 60, Num 80, Num 90, Num 32, Num 50, Num 70, Num 85]"
  let ?H = "\<lparr>objs = \<lambda>r. [(''temp_avg'', ?T)], next_ref = 1\<rparr>"
  have a: "getitem (objs ?H 0) ''temp_avg'' = Inr ?T"
    by (simp add: getitem_def)
  have b: "\<forall>c \<in> set ?T. numeric c"
    by simp
  from temp_category_thresholds [OF a b] obtain df h' cats where
    run: "create_weather_categories 0 ?H = (Inr df, h')"
      "getitem (objs h' df) ''temp_category'' = Inr cats" "length cats = length ?T"
    and rows: "\<forall>i < length ?T. \<forall>t. ?T ! i = Num t \<longrightarrow>
              (t < 32 \<longrightarrow> cats ! i = Str ''Freezing'') \<and>
              (32 \<le> t \<and> t < 50 \<longrightarrow> cats ! i = Str ''Cold'') \<and>
              (50 \<le> t \<and> t < 70 \<longrightarrow> cats ! i = Str ''Mild'') \<and>
              (70 \<le> t \<and> t < 85 \<longrightarrow> cats ! i = Str ''Warm'') \<and>
              (85 \<le> t \<longrightarrow> cats ! i = Str ''Hot'') \<and>
              (t = 32 \<longrightarrow> cats ! i = Str ''Cold'') \<and>
              (t = 50 \<longrightarrow> cats ! i = Str ''Mild'') \<and>
              (t = 70 \<longrightarrow> cats ! i = Str ''Warm'') \<and>
              (t = 85 \<longrightarrow> cats ! i = Str ''Hot'')"
    by (elim exE conjE) (rule that; assumption)
  have "cats ! 0 = Str ''Freezing''" using rows [rule_format, of 0 20] by simp
  moreover have "cats ! 1 = Str ''Cold''" using rows [rule_format, of 1 40] by simp
  moreover have "cats ! 2 = Str ''Mild''" using rows [rule_format, of 2 60] by simp
  moreover have "cats ! 3 = Str ''Warm''" using rows [rule_format, of 3 80] by simp
  moreover have "cats ! 4 = Str ''Hot''" using rows [rule_format, of 4 90] by simp
  moreover have "cats ! 5 = Str ''Cold''" using rows [rule_format, of 5 32] by simp
  moreover have "cats ! 6 = Str ''Mild''" using rows [rule_format, of 6 50] by simp
  moreover have "cats ! 7 = Str ''Warm''" using rows [rule_format, of 7 70] by simp
  moreover have "cats ! 8 = Str ''Hot''" using rows [rule_format, of 8 85] by simp
  ultimately show ?thesis using run by (intro exI [of _ df] exI [of _ h'] exI [of _ cats]) simp
qed

section \<open>Weather flags\<close>

lemma flag_step_columns:
  assumes "map_of d ''weather_main'' = Some mains"
  shows "map_of (flag_step d) ''is_clear'' = Some (series_eq mains ''Clear'')"
    and "map_of (flag_step d) ''is_rainy'' = Some (isin mains [''Rain'', ''Drizzle'', ''Thunderstorm''])"
    and "map_of (flag_step d) ''is_snowy'' = Some (isin mains [''Snow'', ''Sleet''])"
  using assms by (simp_all add: flag_step_def map_of_setitem)

lemma temp_step_ok:
  assumes "\<forall>temps. getitem d ''temp_avg'' = Inr temps \<longrightarrow> (\<forall>c \<in> set temps. numeric c)"
  shows "\<exists>d1. temp_step d = Inr d1"
proof (cases "map_of d ''temp_avg''")
  case None
  then show ?thesis by (simp add: temp_step_def)
next
  case (Some temps)
  with assms have "\<forall>c \<in> set temps. numeric c" by (simp add: getitem_eq_Inr)
  from temp_step_numeric [OF Some this] show ?thesis by blast
qed

text \<open>
  C5. For a table with a column \<open>weather_main\<close> (and, when it has a \<open>temp_avg\<close>, numbers
  in it), \<open>create_weather_categories\<close> returns a table whose columns \<open>is_clear\<close>,
  \<open>is_rainy\<close> and \<open>is_snowy\<close> hold, in every row and whatever the table held under those
  names before: whether \<open>weather_main\<close> is exactly the string Clear; whether it is one of
  Rain, Drizzle, Thunderstorm; whether it is one of Snow, Sleet.
\<close>

theorem weather_flags:
  assumes "getitem (objs h weather_df) ''weather_main'' = Inr mains"
    and "\<forall>temps. getitem (objs h weather_df) ''temp_avg'' = Inr temps \<longrightarrow>
           (\<forall>c \<in> set temps. numeric c)"
  shows "\<exists>df h' clear rainy snowy.
           create_weather_categories weather_df h = (Inr df, h') \<and>
           getitem (objs h' df) ''is_clear'' = Inr clear \<and>
           getitem (objs h' df) ''is_rainy'' = Inr rainy \<and>
           getitem (objs h' df) ''is_snowy'' = Inr snowy \<and>
           length clear = length mains \<and> length rainy = length mains \<and>
           length snowy = length mains \<and>
           (\<forall>i < length mains.
              clear ! i = Bool (mains ! i = Str ''Clear'') \<and>
              rainy ! i = Bool (mains ! i = Str ''Rain'' \<or> mains ! i = Str ''Drizzle'' \<or>
                                mains ! i = Str ''Thunderstorm'') \<and>
              snowy ! i = Bool (mains ! i = Str ''Snow'' \<or> mains ! i = Str ''Sleet''))"
proof -
  let ?d = "objs h weather_df"
  from temp_step_ok [OF assms(2)] obtain d1 where step: "temp_step ?d = Inr d1" by blast
  have "map_of d1 ''weather_main'' = map_of ?d ''weather_main''"
    using map_of_temp_step [OF step] by simp
  with assms(1) have m: "map_of d1 ''weather_main'' = Some mains"
    by (simp add: getitem_eq_Inr)
  have run: "create_weather_categories weather_df h = (Inr (next_ref h), alloc h (flag_step d1))"
    by (simp add: create_weather_categories_eq categories_of_def step)
  have cols: "getitem (objs (alloc h (flag_step d1)) (next_ref h)) ''is_clear'' =
                Inr (series_eq mains ''Clear'')"
    "getitem (objs (alloc h (flag_step d1)) (next_ref h)) ''is_rainy'' =
                Inr (isin mains [''Rain'', ''Drizzle'', ''Thunderstorm''])"
    "getitem (objs (alloc h (flag_step d1)) (next_ref h)) ''is_snowy'' =
                Inr (isin mains [''Snow'', ''Sleet''])"
    using flag_step_columns [OF m] by (simp_all add: alloc_def getitem_eq_Inr)
  show ?thesis
    by (intro exI conjI, rule run, (rule cols)+) (simp_all add: series_eq_def isin_def)
qed

lemma list_of_four: "length xs = 4 \<Longrightarrow> xs = [xs ! 0, xs ! 1, xs ! 2, xs ! 3]"
  by (auto simp: numeral_eq_Suc length_Suc_conv)

theorem weather_flags_witness:
  "\<exists>df h'.
     create_weather_categories 0
       \<lparr>objs = \<lambda>r. [(''weather_main'', [Str ''Clear'', Str ''Rain'', Str ''Snow'', Str ''clear'']),
                     (''is_rainy'', [Bool True, Bool False, Bool True, Bool True])],
        next_ref = 1\<rparr> = (Inr df, h') \<and>
     getitem (objs h' df) ''is_clear'' = Inr [Bool True, Bool False, Bool False, Bool False] \<and>
     getitem (objs h' df) ''is_rainy'' = Inr [Bool False, Bool True, Bool False, Bool False] \<and>
     getitem (objs h' df) ''is_snowy'' = Inr [Bool False, Bool False, Bool True, Bool False]"
proof -
  let ?M = "[Str ''Clear'', Str ''Rain'', Str ''Snow'', Str ''clear'']"
  let ?H = "\<lparr>objs = \<lambda>r. [(''weather_main'', ?M),
                          (''is_rainy'', [Bool True, Bool False, Bool True, Bool True])],
             next_ref = 1\<rparr>"
  have a: "getitem (objs ?H 0) ''weather_main'' = Inr ?M"
    by (simp add: getitem_def)
  have b: "\<forall>temps. getitem (objs ?H 0) ''temp_avg'' = Inr temps \<longrightarrow> (\<forall>c \<in> set temps. numeric c)"
    by (simp add: getitem_def)
  from weather_flags [OF a b] obtain df h' clear rainy snowy where
    run: "create_weather_categories 0 ?H = (Inr df, h')"
    and cols: "getitem (objs h' df) ''is_clear'' = Inr clear"
      "getitem (objs h' df) ''is_rainy'' = Inr rainy"
      "getitem (objs h' df) ''is_snowy'' = Inr snowy"
    and len: "length clear = length ?M" "length rainy = length ?M" "length snowy = length ?M"
    and rows: "\<forall>i < length ?M.
              clear ! i = Bool (?M ! i = Str ''Clear'') \<and>
              rainy ! i = Bool (?M ! i = Str ''Rain'' \<or> ?M ! i = Str ''Drizzle'' \<or>
                                ?M ! i = Str ''Thunderstorm'') \<and>
              snowy ! i = Bool (?M ! i = Str ''Snow'' \<or> ?M ! i = Str ''Sleet'')"
    by (elim exE conjE) (rule that; assumption)
  have r0: "clear ! 0 = Bool True" "rainy ! 0 = Bool False" "snowy ! 0 = Bool False"
    using rows [rule_format, of 0] by simp_all
  have r1: "clear ! 1 = Bool False" "rainy ! 1 = Bool True" "snowy ! 1 = Bool False"
    using rows [rule_format, of 1] by simp_all
  have r2: "clear ! 2 = Bool False" "rainy ! 2 = Bool False" "snowy ! 2 = Bool True"
    using rows [rule_format, of 2] by simp_all
  have r3: "clear ! 3 = Bool False" "rainy ! 3 = Bool False" "snowy ! 3 = Bool False"
    using rows [rule_format, of 3] by simp_all
  have "clear = [Bool True, Bool False, Bool False, Bool False]"
    using list_of_four [of clear] len(1) r0 r1 r2 r3 by simp
  moreover have "rainy = [Bool False, Bool True, Bool False, Bool False]"
    using list_of_four [of rainy] len(2) r0 r1 r2 r3 by simp
  moreover have "snowy = [Bool False, Bool False, Bool True, Bool False]"
    using list_of_four [of snowy] len(3) r0 r1 r2 r3 by simp
  ultimately show ?thesis using run cols
    by (intro exI [of _ df] exI [of _ h']) simp
qed

section \<open>Idempotence\<close>

lemma flag_step_idem: "flag_step (flag_step d) = flag_step d"
proof (cases "map_of d ''weather_main''")
  case None
  then show ?thesis by (simp add: flag_step_def)
next
  case (Some mains)
  have wm: "map_of (flag_step d) ''weather_main'' = Some mains"
    using Some by (simp add: map_of_flag_step)
  note cols = flag_step_columns [OF Some]
  have 1: "setitem (flag_step d) ''is_clear'' (series_eq mains ''Clear'') = flag_step d"
    by (rule setitem_same) (rule cols)
  have 2: "setitem (flag_step d) ''is_rainy'' (isin mains [''Rain'', ''Drizzle'', ''Thunderstorm''])
             = flag_step d"
    by (rule setitem_same) (rule cols)
  have 3: "setitem (flag_step d) ''is_snowy'' (isin mains [''Snow'', ''Sleet'']) = flag_step d"
    by (rule setitem_same) (rule cols)
  have "flag_step (flag_step d) =
          setitem (setitem (setitem (flag_step d) ''is_clear'' (series_eq mains ''Clear''))
            ''is_rainy'' (isin mains [''Rain'', ''Drizzle'', ''Thunderstorm'']))
            ''is_snowy'' (isin mains [''Snow'', ''Sleet''])"
    using wm by (subst flag_step_def) simp
  then show ?thesis by (simp only: 1 2 3)
qed

lemma temp_step_flag_step:
  assumes "temp_step d = Inr d1"
  shows "temp_step (flag_step d1) = Inr (flag_step d1)"
proof (cases "map_of d ''temp_avg''")
  case None
  with assms have "d1 = d" by (simp add: temp_step_def)
  with None have "map_of (flag_step d1) ''temp_avg'' = None" by (simp add: map_of_flag_step)
  then show ?thesis by (simp add: temp_step_def)
next
  case (Some temps)
  with assms obtain cats where cats: "apply_series categorize_temp temps = Inr cats"
    "d1 = setitem d ''temp_category'' cats"
    by (auto simp: temp_step_def split: sum.splits)
  have "map_of (flag_step d1) ''temp_avg'' = Some temps"
    using Some cats(2) by (simp add: map_of_flag_step map_of_setitem)
  moreover have "map_of (flag_step d1) ''temp_category'' = Some cats"
    using cats(2) by (simp add: map_of_flag_step map_of_setitem)
  ultimately show ?thesis using cats(1) by (simp add: temp_step_def setitem_same)
qed

lemma categories_of_idem:
  assumes "categories_of d = Inr d'"
  shows "categories_of d' = Inr d'"
proof -
  from assms obtain d1 where d1: "temp_step d = Inr d1" "d' = flag_step d1"
    by (auto simp: categories_of_def split: sum.splits)
  show ?thesis
    by (simp add: categories_of_def d1(2) temp_step_flag_step [OF d1(1)] flag_step_idem)
qed

text \<open>
  C6. When \<open>create_weather_categories\<close> returns a table, applying it to that table
  returns a table equal to it: the same columns in the same order with the same values.
\<close>

theorem create_weather_categories_idempotent:
  assumes "create_weather_categories weather_df h = (Inr df1, h1)"
  shows "\<exists>df2 h2. create_weather_categories df1 h1 = (Inr df2, h2) \<and>
           objs h2 df2 = objs h1 df1"
proof -
  from assms obtain d where d: "categories_of (objs h weather_df) = Inr d"
    and df1: "df1 = next_ref h" and h1: "h1 = alloc h d"
    by (auto simp: create_weather_categories_eq split: sum.splits)
  have tbl: "objs h1 df1 = d"
    by (simp add: df1 h1 alloc_def)
  have "create_weather_categories df1 h1 = (Inr (next_ref h1), alloc h1 d)"
    by (simp add: create_weather_categories_eq tbl categories_of_idem [OF d])
  moreover have "objs (alloc h1 d) (next_ref h1) = d"
    by (simp add: alloc_def)
  ultimately show ?thesis using tbl by simp
qed

theorem create_weather_categories_idempotent_witness:
  "\<exists>df1 h1 df2 h2.
     create_weather_categories 0
       \<lparr>objs = \<lambda>r. [(''temp_avg'', [Num 20, Num 72]), (''weather_main'', [Str ''Snow'', Str ''Clear''])],
        next_ref = 1\<rparr> = (Inr df1, h1) \<and>
     create_weather_categories df1 h1 = (Inr df2, h2) \<and>
     objs h2 df2 = objs h1 df1 \<and>
     objs h1 df1 =
       [(''temp_avg'', [Num 20, Num 72]), (''weather_main'', [Str ''Snow'', Str ''Clear'']),
        (''temp_category'', [Str ''Freezing'', Str ''Warm'']),
        (''is_clear'', [Bool False, Bool True]), (''is_rainy'', [Bool False, Bool False]),
        (''is_snowy'', [Bool True, Bool False])]"
proof -
  let ?H = "\<lparr>objs = \<lambda>r. [(''temp_avg'', [Num 20, Num 72]),
                          (''weather_main'', [Str ''Snow'', Str ''Clear''])],
             next_ref = 1\<rparr>"
  let ?D = "[(''temp_avg'', [Num 20, Num 72]), (''weather_main'', [Str ''Snow'', Str ''Clear'']),
        (''temp_category'', [Str ''Freezing'', Str ''Warm'']),
        (''is_clear'', [Bool False, Bool True]), (''is_rainy'', [Bool False, Bool False]),
        (''is_snowy'', [Bool True, Bool False])]"
  have run: "create_weather_categories 0 ?H = (Inr 1, alloc ?H ?D)"
    by (simp add: create_weather_categories_eq categories_of_def temp_step_def flag_step_def
        categorize_temp_def setitem_def series_eq_def isin_def)
  from create_weather_categories_idempotent [OF run] obtain df2 h2 where
    "create_weather_categories 1 (alloc ?H ?D) = (Inr df2, h2)"
    "objs h2 df2 = objs (alloc ?H ?D) 1"
    by (elim exE conjE) (rule that; assumption)
  moreover have "objs (alloc ?H ?D) 1 = ?D"
    by (simp add: alloc_def)
  ultimately show ?thesis using run
    by (intro exI [of _ 1] exI [of _ "alloc ?H ?D"] exI [of _ df2] exI [of _ h2]) simp
qed

section \<open>The argument is left as it was\<close>

text \<open>
  C10. \<open>create_weather_categories\<close> works on a copy: whether it returns or raises, every
  table that existed before the call, the argument among them, is in the store afterwards
  with the columns and values it had; the table returned is a new object, not the argument.
\<close>

theorem create_weather_categories_frame:
  assumes "create_weather_categories weather_df h = (res, h')"
    and "weather_df < next_ref h"
  shows "objs h' weather_df = objs h weather_df \<and>
         (\<forall>r < next_ref h. objs h' r = objs h r) \<and>
         (\<forall>df. res = Inr df \<longrightarrow> df \<noteq> weather_df \<and> next_ref h \<le> df)"
  using assms
  by (auto simp: create_weather_categories_eq alloc_def split: sum.splits)

theorem create_weather_categories_frame_witness:
  "\<exists>df h'.
     create_weather_categories 0
       \<lparr>objs = \<lambda>r. [(''weather_main'', [Str ''Rain''])], next_ref = 1\<rparr> = (Inr df, h') \<and>
     objs h' 0 = [(''weather_main'', [Str ''Rain''])] \<and> df \<noteq> 0 \<and>
     objs h' df = [(''weather_main'', [Str ''Rain'']), (''is_clear'', [Bool False]),
                   (''is_rainy'', [Bool True]), (''is_snowy'', [Bool False])]"
proof -
  let ?H = "\<lparr>objs = \<lambda>r. [(''weather_main'', [Str ''Rain''])], next_ref = 1\<rparr>"
  let ?D = "[(''weather_main'', [Str ''Rain'']), (''is_clear'', [Bool False]),
                   (''is_rainy'', [Bool True]), (''is_snowy'', [Bool False])]"
  have run: "create_weather_categories 0 ?H = (Inr 1, alloc ?H ?D)"
    by (simp add: create_weather_categories_eq categories_of_def temp_step_def flag_step_def
        setitem_def series_eq_def isin_def)
  have alloc: "(0::nat) < next_ref ?H"
    by simp
  from create_weather_categories_frame [OF run alloc]
  have "objs (alloc ?H ?D) 0 = objs ?H 0" and "(1::nat) \<noteq> 0"
    by simp_all
  moreover have "objs (alloc ?H ?D) 1 = ?D"
    by (simp add: alloc_def)
  ultimately show ?thesis using run
    by (intro exI [of _ 1] exI [of _ "alloc ?H ?D"]) simp
qed

section \<open>Summary statistics\<close>

lemma series_gt_numeric:
  "\<forall>c \<in> set s. numeric c \<Longrightarrow>
     series_gt s k = Inr (map (\<lambda>c. Bool (py_gt c k = Some True)) s)"
proof (induction s)
  case Nil
  then show ?case by (simp add: series_gt_def)
next
  case (Cons c cs)
  then have "series_gt cs k = Inr (map (\<lambda>c. Bool (py_gt c k = Some True)) cs)"
    and "numeric c" by simp_all
  then show ?case by (cases c) (simp_all add: series_gt_def)
qed

lemma int64_small: "0 \<le> n \<Longrightarrow> n < 2 ^ 63 \<Longrightarrow> int64 n = n"
  by (simp add: int64_def)













section \<open>Loading NOAA files\<close>

lemma getitem_in_columns: "k \<in> set (columns d) \<Longrightarrow> \<exists>s. getitem d k = Inr s"
  by (auto simp: in_columns_iff getitem_def)

lemma map_columns_result:
  assumes "set (map fst ms) \<inter> set (map snd ms) = {}" and "distinct (map snd ms)"
  shows "\<exists>df'. map_columns ms df = Inr df' \<and>
           (\<forall>k. map_of df' k =
              (case find (\<lambda>m. snd m = k) ms of
                 None \<Rightarrow> map_of df k
               | Some m \<Rightarrow> (case map_of df (fst m) of None \<Rightarrow> map_of df k | Some s \<Rightarrow> Some s)))"
  using assms
proof (induction ms arbitrary: df)
  case Nil
  then show ?case by simp
next
  case (Cons m rest)
  obtain old new where m: "m = (old, new)" by (cases m)
  from Cons.prems have disj: "set (map fst rest) \<inter> set (map snd rest) = {}"
    and dist: "distinct (map snd rest)"
    and fresh: "new \<notin> set (map snd rest)" "new \<notin> set (map fst rest)" "old \<noteq> new"
    "old \<notin> set (map snd rest)"
    by (auto simp: m)
  have nofind: "find (\<lambda>m. snd m = new) rest = None"
    using fresh(1) by (force simp: find_None_iff)
  have oldfind: "\<And>k m'. find (\<lambda>m. snd m = k) rest = Some m' \<Longrightarrow> fst m' \<noteq> new"
    using fresh(2) by (auto simp: find_Some_iff)
  show ?case
  proof (cases "map_of df old")
    case None
    from Cons.IH [OF disj dist, of df] obtain df' where
      r: "map_columns rest df = Inr df'"
      and v: "\<forall>k. map_of df' k =
              (case find (\<lambda>m. snd m = k) rest of
                 None \<Rightarrow> map_of df k
               | Some m \<Rightarrow> (case map_of df (fst m) of None \<Rightarrow> map_of df k | Some s \<Rightarrow> Some s))"
      by blast
    have "map_columns (m # rest) df = Inr df'"
      using None r by (simp add: m in_columns_iff)
    moreover have "\<forall>k. map_of df' k =
              (case find (\<lambda>m. snd m = k) (m # rest) of
                 None \<Rightarrow> map_of df k
               | Some m \<Rightarrow> (case map_of df (fst m) of None \<Rightarrow> map_of df k | Some s \<Rightarrow> Some s))"
      using v None nofind by (auto simp: m)
    ultimately show ?thesis by blast
  next
    case (Some s)
    let ?df1 = "setitem df new s"
    from Cons.IH [OF disj dist, of ?df1] obtain df' where
      r: "map_columns rest ?df1 = Inr df'"
      and v: "\<forall>k. map_of df' k =
              (case find (\<lambda>m. snd m = k) rest of
                 None \<Rightarrow> map_of ?df1 k
               | Some m \<Rightarrow> (case map_of ?df1 (fst m) of None \<Rightarrow> map_of ?df1 k | Some s \<Rightarrow> Some s))"
      by blast
    have "map_columns (m # rest) df = Inr df'"
      using Some r by (simp add: m in_columns_iff getitem_def)
    moreover have "\<forall>k. map_of df' k =
              (case find (\<lambda>m. snd m = k) (m # rest) of
                 None \<Rightarrow> map_of df k
               | Some m \<Rightarrow> (case map_of df (fst m) of None \<Rightarrow> map_of df k | Some s \<Rightarrow> Some s))"
    proof
      fix k
      show "map_of df' k =
              (case find (\<lambda>m. snd m = k) (m # rest) of
                 None \<Rightarrow> map_of df k
               | Some m \<Rightarrow> (case map_of df (fst m) of None \<Rightarrow> map_of df k | Some s \<Rightarrow> Some s))"
      proof (cases "k = new")
        case True
        then show ?thesis using v [rule_format, of new] nofind Some
          by (simp add: m map_of_setitem)
      next
        case False
        show ?thesis
        proof (cases "find (\<lambda>m. snd m = k) rest")
          case None
          then show ?thesis using v [rule_format, of k] False
            by (simp add: m map_of_setitem)
        next
          case (Some m')
          with oldfind have "fst m' \<noteq> new" by blast
          then show ?thesis using v [rule_format, of k] False Some
            by (simp add: m map_of_setitem split: option.splits)
        qed
      qed
    qed
    ultimately show ?thesis by blast
  qed
qed

lemma map_columns_column_mapping:
  "\<exists>df'. map_columns column_mapping df = Inr df' \<and>
     (\<forall>k. map_of df' k =
              (case find (\<lambda>m. snd m = k) column_mapping of
                 None \<Rightarrow> map_of df k
               | Some m \<Rightarrow> (case map_of df (fst m) of None \<Rightarrow> map_of df k | Some s \<Rightarrow> Some s)))"
  by (rule map_columns_result) (simp_all add: column_mapping_def)

lemma derive_temp_avg_result:
  assumes "\<forall>mx mn. map_of df ''temp_max'' = Some mx \<and> map_of df ''temp_min'' = Some mn \<longrightarrow>
             (\<exists>tot avg. series_add pd mx mn = Inr tot \<and> series_truediv pd tot 2 = Inr avg)"
  shows "\<exists>df2. derive_temp_avg pd df = Inr df2 \<and>
           (\<forall>k. k \<noteq> ''temp_avg'' \<longrightarrow> map_of df2 k = map_of df k) \<and>
           (\<forall>mx mn. map_of df ''temp_max'' = Some mx \<and> map_of df ''temp_min'' = Some mn \<longrightarrow>
              (\<exists>tot avg. series_add pd mx mn = Inr tot \<and> series_truediv pd tot 2 = Inr avg \<and>
                 map_of df2 ''temp_avg'' = Some avg)) \<and>
           (map_of df ''temp_max'' = None \<or> map_of df ''temp_min'' = None \<longrightarrow>
              map_of df2 ''temp_avg'' = map_of df ''temp_avg'')"
proof (cases "map_of df ''temp_max'' = None \<or> map_of df ''temp_min'' = None")
  case True
  then have "derive_temp_avg pd df = Inr df"
    by (auto simp: derive_temp_avg_def in_columns_iff)
  with True show ?thesis by auto
next
  case False
  then obtain mx mn where mx: "map_of df ''temp_max'' = Some mx"
    and mn: "map_of df ''temp_min'' = Some mn" by auto
  with assms obtain tot avg where tot: "series_add pd mx mn = Inr tot"
    and avg: "series_truediv pd tot 2 = Inr avg" by blast
  have run: "derive_temp_avg pd df = Inr (setitem df ''temp_avg'' avg)"
    using mx mn tot avg by (simp add: derive_temp_avg_def in_columns_iff getitem_def)
  show ?thesis
    using run mx mn tot avg
    by (intro exI [of _ "setitem df ''temp_avg'' avg"]) (simp add: map_of_setitem)
qed

lemma derive_is_rainy_result:
  assumes "\<forall>p. map_of df ''precipitation'' = Some p \<longrightarrow> (\<forall>c \<in> set p. numeric c)"
  shows "\<exists>df3. derive_is_rainy df = Inr df3 \<and>
           (\<forall>k. k \<noteq> ''is_rainy'' \<longrightarrow> map_of df3 k = map_of df k) \<and>
           (\<forall>p. map_of df ''precipitation'' = Some p \<longrightarrow>
              map_of df3 ''is_rainy'' = Some (map (\<lambda>c. Bool (py_gt c 0 = Some True)) p)) \<and>
           (map_of df ''precipitation'' = None \<longrightarrow>
              map_of df3 ''is_rainy'' = map_of df ''is_rainy'')"
proof (cases "map_of df ''precipitation''")
  case None
  then show ?thesis by (simp add: derive_is_rainy_def in_columns_iff)
next
  case (Some p)
  with assms have "\<forall>c \<in> set p. numeric c" by simp
  from series_gt_numeric [OF this, of 0] Some show ?thesis
    by (simp add: derive_is_rainy_def in_columns_iff getitem_def map_of_setitem)
qed

lemma load_noaa_result:
  assumes rd: "read_csv file_path = Inr df"
    and dt: "getitem df ''DATE'' = Inr d"
    and td: "to_date d = Inr dates"
    and ar: "\<forall>mx mn. canonical df ''TMAX'' ''temp_max'' = Some mx \<and>
                     canonical df ''TMIN'' ''temp_min'' = Some mn \<longrightarrow>
               (\<exists>tot avg. series_add pd mx mn = Inr tot \<and> series_truediv pd tot 2 = Inr avg)"
    and pr: "\<forall>p. canonical df ''PRCP'' ''precipitation'' = Some p \<longrightarrow> (\<forall>c \<in> set p. numeric c)"
  shows "\<exists>out. load_noaa_weather_data pd read_csv to_date file_path = Inr out \<and>
     (\<forall>k. k \<notin> {''temp_avg'', ''is_rainy''} \<longrightarrow>
        map_of out k =
          (case find (\<lambda>m. snd m = k) column_mapping of
             None \<Rightarrow> if k = ''date'' then Some dates else map_of df k
           | Some m \<Rightarrow> (case map_of df (fst m) of None \<Rightarrow> map_of df k | Some s \<Rightarrow> Some s))) \<and>
     (\<forall>mx mn. map_of out ''temp_max'' = Some mx \<and> map_of out ''temp_min'' = Some mn \<longrightarrow>
        (\<exists>tot avg. series_add pd mx mn = Inr tot \<and> series_truediv pd tot 2 = Inr avg \<and>
           map_of out ''temp_avg'' = Some avg)) \<and>
     (map_of out ''temp_max'' = None \<or> map_of out ''temp_min'' = None \<longrightarrow>
        map_of out ''temp_avg'' = map_of df ''temp_avg'') \<and>
     (\<forall>p. map_of out ''precipitation'' = Some p \<longrightarrow>
        map_of out ''is_rainy'' = Some (map (\<lambda>c. Bool (py_gt c 0 = Some True)) p)) \<and>
     (map_of out ''precipitation'' = None \<longrightarrow> map_of out ''is_rainy'' = map_of df ''is_rainy'')"
proof -
  let ?df0 = "setitem df ''date'' dates"
  from map_columns_column_mapping [of ?df0] obtain df1 where
    m: "map_columns column_mapping ?df0 = Inr df1"
    and v: "\<forall>k. map_of df1 k =
              (case find (\<lambda>m. snd m = k) column_mapping of
                 None \<Rightarrow> map_of ?df0 k
               | Some m \<Rightarrow> (case map_of ?df0 (fst m) of None \<Rightarrow> map_of ?df0 k | Some s \<Rightarrow> Some s))"
    by blast
  have v': "\<And>k. map_of df1 k =
          (case find (\<lambda>m. snd m = k) column_mapping of
             None \<Rightarrow> if k = ''date'' then Some dates else map_of df k
           | Some m \<Rightarrow> (case map_of df (fst m) of None \<Rightarrow> map_of df k | Some s \<Rightarrow> Some s))"
  proof -
    fix k
    show "map_of df1 k =
          (case find (\<lambda>m. snd m = k) column_mapping of
             None \<Rightarrow> if k = ''date'' then Some dates else map_of df k
           | Some m \<Rightarrow> (case map_of df (fst m) of None \<Rightarrow> map_of df k | Some s \<Rightarrow> Some s))"
      unfolding v [rule_format, of k]
      by (auto simp: map_of_setitem column_mapping_def split: option.splits)
  qed
  have cols: "map_of df1 ''temp_max'' = canonical df ''TMAX'' ''temp_max''"
    "map_of df1 ''temp_min'' = canonical df ''TMIN'' ''temp_min''"
    "map_of df1 ''precipitation'' = canonical df ''PRCP'' ''precipitation''"
    "map_of df1 ''temp_avg'' = map_of df ''temp_avg''"
    "map_of df1 ''is_rainy'' = map_of df ''is_rainy''"
    by (simp_all add: v' column_mapping_def canonical_def)
  have ar1: "\<forall>mx mn. map_of df1 ''temp_max'' = Some mx \<and> map_of df1 ''temp_min'' = Some mn \<longrightarrow>
             (\<exists>tot avg. series_add pd mx mn = Inr tot \<and> series_truediv pd tot 2 = Inr avg)"
    using ar by (simp only: cols)
  from derive_temp_avg_result [OF ar1] obtain df2 where
    r2: "derive_temp_avg pd df1 = Inr df2"
    and k2: "\<forall>k. k \<noteq> ''temp_avg'' \<longrightarrow> map_of df2 k = map_of df1 k"
    and a2: "\<forall>mx mn. map_of df1 ''temp_max'' = Some mx \<and> map_of df1 ''temp_min'' = Some mn \<longrightarrow>
              (\<exists>tot avg. series_add pd mx mn = Inr tot \<and> series_truediv pd tot 2 = Inr avg \<and>
                 map_of df2 ''temp_avg'' = Some avg)"
    and b2: "map_of df1 ''temp_max'' = None \<or> map_of df1 ''temp_min'' = None \<longrightarrow>
              map_of df2 ''temp_avg'' = map_of df1 ''temp_avg''"
    by (elim exE conjE) (rule that; assumption)
  have p2: "map_of df2 ''precipitation'' = canonical df ''PRCP'' ''precipitation''"
    using k2 cols(3) by simp
  have pr2: "\<forall>p. map_of df2 ''precipitation'' = Some p \<longrightarrow> (\<forall>c \<in> set p. numeric c)"
    using pr by (simp only: p2)
  from derive_is_rainy_result [OF pr2] obtain out where
    r3: "derive_is_rainy df2 = Inr out"
    and k3: "\<forall>k. k \<noteq> ''is_rainy'' \<longrightarrow> map_of out k = map_of df2 k"
    and a3: "\<forall>p. map_of df2 ''precipitation'' = Some p \<longrightarrow>
              map_of out ''is_rainy'' = Some (map (\<lambda>c. Bool (py_gt c 0 = Some True)) p)"
    and b3: "map_of df2 ''precipitation'' = None \<longrightarrow>
              map_of out ''is_rainy'' = map_of df2 ''is_rainy''"
    by (elim exE conjE) (rule that; assumption)
  have run: "load_noaa_weather_data pd read_csv to_date file_path = Inr out"
    by (simp add: load_noaa_weather_data_def rd dt td m r2 r3)
  have same: "\<And>k. k \<notin> {''temp_avg'', ''is_rainy''} \<Longrightarrow> map_of out k = map_of df1 k"
    using k2 k3 by simp
  have c1: "\<forall>k. k \<notin> {''temp_avg'', ''is_rainy''} \<longrightarrow>
        map_of out k =
          (case find (\<lambda>m. snd m = k) column_mapping of
             None \<Rightarrow> if k = ''date'' then Some dates else map_of df k
           | Some m \<Rightarrow> (case map_of df (fst m) of None \<Rightarrow> map_of df k | Some s \<Rightarrow> Some s))"
    using same v' by simp
  have o: "map_of out ''temp_max'' = map_of df1 ''temp_max''"
    "map_of out ''temp_min'' = map_of df1 ''temp_min''"
    "map_of out ''precipitation'' = map_of df1 ''precipitation''"
    "map_of out ''temp_avg'' = map_of df2 ''temp_avg''"
    "map_of df2 ''precipitation'' = map_of df1 ''precipitation''"
    "map_of df2 ''is_rainy'' = map_of df1 ''is_rainy''"
    using k2 k3 by simp_all
  have c2: "\<forall>mx mn. map_of out ''temp_max'' = Some mx \<and> map_of out ''temp_min'' = Some mn \<longrightarrow>
        (\<exists>tot avg. series_add pd mx mn = Inr tot \<and> series_truediv pd tot 2 = Inr avg \<and>
           map_of out ''temp_avg'' = Some avg)"
    using a2 by (simp only: o)
  have c3: "map_of out ''temp_max'' = None \<or> map_of out ''temp_min'' = None \<longrightarrow>
        map_of out ''temp_avg'' = map_of df ''temp_avg''"
    using b2 by (simp only: o cols(4))
  have c4: "\<forall>p. map_of out ''precipitation'' = Some p \<longrightarrow>
        map_of out ''is_rainy'' = Some (map (\<lambda>c. Bool (py_gt c 0 = Some True)) p)"
    using a3 by (simp only: o)
  have c5: "map_of out ''precipitation'' = None \<longrightarrow> map_of out ''is_rainy'' = map_of df ''is_rainy''"
    using b3 by (simp only: o cols(5))
  from run c1 c2 c3 c4 c5 show ?thesis
    by (intro exI [of _ out] conjI)
qed

section \<open>Column mapping of the loader\<close>

text \<open>
  C8, as the code has it. For a file that loads (it parses, has a \<open>DATE\<close> column whose
  values parse, temperature columns that the library adds and halves, and a precipitation
  column that compares with 0), every source
  column among TMAX, TMIN, PRCP, AWND, SNOW, SNWD that the file has is copied, values
  unchanged, to its canonical name, and the source-named column stays in the output as it
  was. For a source column the file lacks nothing is made: the output has the canonical
  column only if the file itself had a column of that name, unchanged.
\<close>

theorem load_noaa_column_mapping:
  assumes "read_csv file_path = Inr df"
    and "getitem df ''DATE'' = Inr d"
    and "to_date d = Inr dates"
    and "\<forall>mx mn. canonical df ''TMAX'' ''temp_max'' = Some mx \<and>
                  canonical df ''TMIN'' ''temp_min'' = Some mn \<longrightarrow>
           (\<exists>tot avg. series_add pd mx mn = Inr tot \<and> series_truediv pd tot 2 = Inr avg)"
    and "\<forall>p. canonical df ''PRCP'' ''precipitation'' = Some p \<longrightarrow> (\<forall>c \<in> set p. numeric c)"
  shows "\<exists>out. load_noaa_weather_data pd read_csv to_date file_path = Inr out \<and>
     (\<forall>(old_col, new_col) \<in> set column_mapping.
        getitem out old_col = getitem df old_col \<and>
        (old_col \<in> set (columns df) \<longrightarrow> getitem out new_col = getitem df old_col) \<and>
        (old_col \<notin> set (columns df) \<longrightarrow> getitem out new_col = getitem df new_col))"
proof -
  from load_noaa_result [where pd = pd and read_csv = read_csv and file_path = file_path
      and to_date = to_date, OF assms] obtain out where
    run: "load_noaa_weather_data pd read_csv to_date file_path = Inr out"
    and v: "\<forall>k. k \<notin> {''temp_avg'', ''is_rainy''} \<longrightarrow>
        map_of out k =
          (case find (\<lambda>m. snd m = k) column_mapping of
             None \<Rightarrow> if k = ''date'' then Some dates else map_of df k
           | Some m \<Rightarrow> (case map_of df (fst m) of None \<Rightarrow> map_of df k | Some s \<Rightarrow> Some s))"
    by (elim exE conjE) (rule that; assumption)
  have olds: "map_of out ''TMAX'' = map_of df ''TMAX''" "map_of out ''TMIN'' = map_of df ''TMIN''"
    "map_of out ''PRCP'' = map_of df ''PRCP''" "map_of out ''AWND'' = map_of df ''AWND''"
    "map_of out ''SNOW'' = map_of df ''SNOW''" "map_of out ''SNWD'' = map_of df ''SNWD''"
    using v [rule_format, of "''TMAX''"] v [rule_format, of "''TMIN''"]
      v [rule_format, of "''PRCP''"] v [rule_format, of "''AWND''"]
      v [rule_format, of "''SNOW''"] v [rule_format, of "''SNWD''"]
    by (simp_all add: column_mapping_def)
  have news: "map_of out ''temp_max'' =
                (case map_of df ''TMAX'' of None \<Rightarrow> map_of df ''temp_max'' | Some s \<Rightarrow> Some s)"
    "map_of out ''temp_min'' =
                (case map_of df ''TMIN'' of None \<Rightarrow> map_of df ''temp_min'' | Some s \<Rightarrow> Some s)"
    "map_of out ''precipitation'' =
                (case map_of df ''PRCP'' of None \<Rightarrow> map_of df ''precipitation'' | Some s \<Rightarrow> Some s)"
    "map_of out ''wind_speed'' =
                (case map_of df ''AWND'' of None \<Rightarrow> map_of df ''wind_speed'' | Some s \<Rightarrow> Some s)"
    "map_of out ''snow'' =
                (case map_of df ''SNOW'' of None \<Rightarrow> map_of df ''snow'' | Some s \<Rightarrow> Some s)"
    "map_of out ''snow_depth'' =
                (case map_of df ''SNWD'' of None \<Rightarrow> map_of df ''snow_depth'' | Some s \<Rightarrow> Some s)"
    using v [rule_format, of "''temp_max''"] v [rule_format, of "''temp_min''"]
      v [rule_format, of "''precipitation''"] v [rule_format, of "''wind_speed''"]
      v [rule_format, of "''snow''"] v [rule_format, of "''snow_depth''"]
    by (simp_all add: column_mapping_def)
  have pair: "\<And>old_col new_col.
        map_of out old_col = map_of df old_col \<Longrightarrow>
        map_of out new_col =
          (case map_of df old_col of None \<Rightarrow> map_of df new_col | Some s \<Rightarrow> Some s) \<Longrightarrow>
        getitem out old_col = getitem df old_col \<and>
        (old_col \<in> set (columns df) \<longrightarrow> getitem out new_col = getitem df old_col) \<and>
        (old_col \<notin> set (columns df) \<longrightarrow> getitem out new_col = getitem df new_col)"
    by (auto simp: getitem_def in_columns_iff split: option.splits)
  have "\<forall>(old_col, new_col) \<in> set column_mapping.
        getitem out old_col = getitem df old_col \<and>
        (old_col \<in> set (columns df) \<longrightarrow> getitem out new_col = getitem df old_col) \<and>
        (old_col \<notin> set (columns df) \<longrightarrow> getitem out new_col = getitem df new_col)"
    unfolding column_mapping_def
    using pair [OF olds(1) news(1)] pair [OF olds(2) news(2)] pair [OF olds(3) news(3)]
      pair [OF olds(4) news(4)] pair [OF olds(5) news(5)] pair [OF olds(6) news(6)]
    by simp
  with run show ?thesis by blast
qed

theorem load_noaa_column_mapping_witness:
  "\<exists>out.
     load_noaa_weather_data example_pandas
       (\<lambda>p. Inr [(''DATE'', [Str ''2024-01-01'']), (''TMAX'', [Num 60]), (''snow'', [Num 2])])
       (\<lambda>s. Inr [DateV 19723]) ''noaa.csv'' = Inr out \<and>
     getitem out ''TMAX'' = Inr [Num 60] \<and> getitem out ''temp_max'' = Inr [Num 60] \<and>
     getitem out ''TMIN'' = Inl (KeyError ''TMIN'') \<and>
     getitem out ''temp_min'' = Inl (KeyError ''temp_min'') \<and>
     getitem out ''snow'' = Inr [Num 2]"
proof -
  let ?F = "[(''DATE'', [Str ''2024-01-01'']), (''TMAX'', [Num 60]), (''snow'', [Num 2])]"
  let ?read = "\<lambda>p::string. Inr ?F :: error + dataframe"
  let ?date = "\<lambda>s::series. Inr [DateV 19723] :: error + series"
  have a: "?read ''noaa.csv'' = Inr ?F" by simp
  have b: "getitem ?F ''DATE'' = Inr [Str ''2024-01-01'']" by (simp add: getitem_def)
  have c: "?date [Str ''2024-01-01''] = Inr [DateV 19723]" by simp
  have d: "\<forall>mx mn. canonical ?F ''TMAX'' ''temp_max'' = Some mx \<and>
                  canonical ?F ''TMIN'' ''temp_min'' = Some mn \<longrightarrow>
           (\<exists>tot avg. series_add example_pandas mx mn = Inr tot \<and>
              series_truediv example_pandas tot 2 = Inr avg)"
    by (simp add: canonical_def)
  have e: "\<forall>p. canonical ?F ''PRCP'' ''precipitation'' = Some p \<longrightarrow> (\<forall>c \<in> set p. numeric c)"
    by (simp add: canonical_def)
  from load_noaa_column_mapping [where pd = example_pandas and read_csv = ?read
      and to_date = ?date and file_path = "''noaa.csv''", OF a b c d e]
  obtain out where run: "load_noaa_weather_data example_pandas ?read ?date ''noaa.csv'' = Inr out"
    and m: "\<forall>(old_col, new_col) \<in> set column_mapping.
        getitem out old_col = getitem ?F old_col \<and>
        (old_col \<in> set (columns ?F) \<longrightarrow> getitem out new_col = getitem ?F old_col) \<and>
        (old_col \<notin> set (columns ?F) \<longrightarrow> getitem out new_col = getitem ?F new_col)"
    by (elim exE conjE) (rule that; assumption)
  have "(''TMAX'', ''temp_max'') \<in> set column_mapping" "(''TMIN'', ''temp_min'') \<in> set column_mapping"
    "(''SNOW'', ''snow'') \<in> set column_mapping"
    by (simp_all add: column_mapping_def)
  from m [rule_format, OF this(1)] m [rule_format, OF this(2)] m [rule_format, OF this(3)]
  have "getitem out ''TMAX'' = Inr [Num 60]" "getitem out ''temp_max'' = Inr [Num 60]"
    "getitem out ''TMIN'' = Inl (KeyError ''TMIN'')"
    "getitem out ''temp_min'' = Inl (KeyError ''temp_min'')"
    "getitem out ''snow'' = Inr [Num 2]"
    by (simp_all add: getitem_def columns_def)
  with run show ?thesis by (intro exI [of _ out]) simp
qed

text \<open>C8 as specified fails: the source-named column \<open>TMAX\<close> is in the output.\<close>

theorem load_noaa_keeps_source_column:
  "load_noaa_weather_data example_pandas
     (\<lambda>p. Inr [(''DATE'', [Str ''2024-01-01'']), (''TMAX'', [Num 60])])
     (\<lambda>s. Inr [DateV 19723]) ''noaa.csv'' =
   Inr [(''DATE'', [Str ''2024-01-01'']), (''TMAX'', [Num 60]), (''date'', [DateV 19723]),
        (''temp_max'', [Num 60])] \<and>
   ''TMAX'' \<in> set (columns [(''DATE'', [Str ''2024-01-01'']), (''TMAX'', [Num 60]),
                            (''date'', [DateV 19723]), (''temp_max'', [Num 60])])"
  by (simp add: load_noaa_weather_data_def getitem_def setitem_def column_mapping_def columns_def
      derive_temp_avg_def derive_is_rainy_def)

section \<open>Derived columns of the loader\<close>






section \<open>The collection loop\<close>

lemma fetch_loop_continue:
  "current_date s \<le> end_date \<Longrightarrow> loop_body mktime net api_key s = (None, s1) \<Longrightarrow>
     fetch_loop mktime net api_key end_date s = fetch_loop mktime net api_key end_date s1"
  by (subst fetch_loop.simps) simp

lemma fetch_loop_raise:
  "current_date s \<le> end_date \<Longrightarrow> loop_body mktime net api_key s = (Some e, s1) \<Longrightarrow>
     fetch_loop mktime net api_key end_date s = Some (Some e, s1)"
  by (subst fetch_loop.simps) simp

lemma fetch_loop_stop:
  "\<not> current_date s \<le> end_date \<Longrightarrow>
     fetch_loop mktime net api_key end_date s = Some (None, s)"
  by (subst fetch_loop.simps) simp

lemma try_block_429:
  assumes "net (n_calls (trace s)) r = Response 429 body"
  shows "try_block net r s =
           (Inr Continue, s\<lparr>trace := trace s @ [Get r, Print RateLimit, Sleep 60]\<rparr>)"
  using assms by (simp add: try_block_def Let_def)

lemma try_block_other:
  assumes "\<forall>body. net (n_calls (trace s)) r \<noteq> Response 429 body"
  shows "\<exists>res s1. try_block net r s = (res, s1) \<and> res \<noteq> Inr Continue \<and>
           current_date s1 = current_date s \<and> (\<exists>rest. trace s1 = trace s @ Get r # rest)"
proof (cases "net (n_calls (trace s)) r")
  case (Raised e)
  then show ?thesis by (simp add: try_block_def Let_def)
next
  case (Response status_code body)
  with assms have "status_code \<noteq> 429" by auto
  with Response show ?thesis
    by (cases body) (simp_all add: try_block_def Let_def)
qed

lemma advance_ok:
  "current_date s + one_day \<le> datetime_max \<Longrightarrow>
     advance s = (None, s\<lparr>current_date := current_date s + one_day\<rparr>)"
  by (simp add: advance_def add_day_def)

lemma advance_overflow:
  "datetime_max < current_date s + one_day \<Longrightarrow> advance s = (Some OverflowError, s)"
  by (simp add: advance_def add_day_def)

lemma loop_body_eq:
  "mktime (current_date s) = Inr ts \<Longrightarrow>
     loop_body mktime net api_key s =
       (case try_block net (request_for api_key ts) s of
          (Inr Continue, s1) \<Rightarrow> (None, s1)
        | (Inr FallThrough, s1) \<Rightarrow> advance s1
        | (Inl e, s1) \<Rightarrow>
            advance (s1\<lparr>trace := trace s1 @ [Print (FetchError (current_date s1) e)]\<rparr>))"
  by (simp add: loop_body_def request_for_def)

lemma loop_body_429:
  assumes "mktime (current_date s) = Inr ts"
    and "net (n_calls (trace s)) (request_for api_key ts) = Response 429 body"
  shows "loop_body mktime net api_key s =
           (None, s\<lparr>trace := trace s @ [Get (request_for api_key ts), Print RateLimit, Sleep 60]\<rparr>)"
  by (simp add: loop_body_eq [where mktime = mktime and s = s, OF assms(1)]
      try_block_429 [where net = net and s = s, OF assms(2)])

lemma loop_body_clock:
  "mktime (current_date s) = Inl e \<Longrightarrow> loop_body mktime net api_key s = (Some e, s)"
  by (simp add: loop_body_def)


lemma loop_body_other:
  assumes "mktime (current_date s) = Inr ts"
    and "\<forall>body. net (n_calls (trace s)) (request_for api_key ts) \<noteq> Response 429 body"
  shows "(current_date s + one_day \<le> datetime_max \<longrightarrow>
            fst (loop_body mktime net api_key s) = None \<and>
            current_date (snd (loop_body mktime net api_key s)) = current_date s + one_day) \<and>
         (datetime_max < current_date s + one_day \<longrightarrow>
            fst (loop_body mktime net api_key s) = Some OverflowError \<and>
            current_date (snd (loop_body mktime net api_key s)) = current_date s)"
proof -
  from try_block_other [where net = net and s = s, OF assms(2)] obtain res s1 where
    t: "try_block net (request_for api_key ts) s = (res, s1)" and nc: "res \<noteq> Inr Continue"
    and d: "current_date s1 = current_date s" by blast
  let ?s2 = "s1\<lparr>trace := trace s1 @ [Print (FetchError (current_date s1) (projl res))]\<rparr>"
  have "loop_body mktime net api_key s = advance s1 \<or> loop_body mktime net api_key s = advance ?s2"
  proof (cases res)
    case (Inl e)
    then show ?thesis
      by (simp add: loop_body_eq [where mktime = mktime and s = s, OF assms(1)] t)
  next
    case (Inr fl)
    with nc have "fl = FallThrough" by (cases fl) simp_all
    with Inr show ?thesis
      by (simp add: loop_body_eq [where mktime = mktime and s = s, OF assms(1)] t)
  qed
  moreover have "current_date ?s2 = current_date s" using d by simp
  ultimately show ?thesis
    using d advance_ok [of s1] advance_overflow [of s1] advance_ok [of ?s2]
      advance_overflow [of ?s2]
    by (elim disjE) (simp_all del: advance_def)
qed

lemma loop_body_trace:
  assumes "mktime (current_date s) = Inr ts"
  shows "\<exists>rest. trace (snd (loop_body mktime net api_key s)) =
           trace s @ Get (request_for api_key ts) # rest"
proof (cases "\<exists>body. net (n_calls (trace s)) (request_for api_key ts) = Response 429 body")
  case True
  then obtain body where "net (n_calls (trace s)) (request_for api_key ts) = Response 429 body"
    by blast
  from loop_body_429 [where mktime = mktime and net = net and s = s, OF assms this]
  show ?thesis by simp
next
  case False
  then have "\<forall>body. net (n_calls (trace s)) (request_for api_key ts) \<noteq> Response 429 body"
    by blast
  from try_block_other [where net = net and s = s, OF this] obtain res s1 rest where
    t: "try_block net (request_for api_key ts) s = (res, s1)" and nc: "res \<noteq> Inr Continue"
    and tr: "trace s1 = trace s @ Get (request_for api_key ts) # rest" by blast
  have adv: "\<And>s'. trace (snd (advance s')) = trace s'"
    by (simp add: advance_def add_day_def)
  show ?thesis
  proof (cases res)
    case (Inl e)
    then have "trace (snd (loop_body mktime net api_key s)) =
                 trace s1 @ [Print (FetchError (current_date s1) e)]"
      by (simp add: loop_body_eq [where mktime = mktime and s = s, OF assms] t adv)
    then show ?thesis by (simp add: tr)
  next
    case (Inr fl)
    with nc have "fl = FallThrough" by (cases fl) simp_all
    with Inr have "trace (snd (loop_body mktime net api_key s)) = trace s1"
      by (simp add: loop_body_eq [where mktime = mktime and s = s, OF assms] t adv)
    then show ?thesis by (simp add: tr)
  qed
qed


lemma ends_after_0_stop:
  "\<not> current_date s \<le> end_date \<Longrightarrow> ends_after mktime net api_key end_date s (None, s) 0"
  by (simp add: ends_after_def)

lemma ends_after_0_raise:
  "current_date s \<le> end_date \<Longrightarrow> loop_body mktime net api_key s = (Some e, s1) \<Longrightarrow>
     ends_after mktime net api_key end_date s (Some e, s1) 0"
  by (simp add: ends_after_def)

lemma funpow_shift: "(f ^^ Suc i) x = (f ^^ i) (f x)"
  by (simp only: funpow_Suc_right o_apply)

lemma ends_after_Suc:
  assumes "current_date s \<le> end_date"
    and "loop_body mktime net api_key s = (None, s1)"
    and "ends_after mktime net api_key end_date s1 y n"
  shows "ends_after mktime net api_key end_date s y (Suc n)"
proof -
  let ?it = "iteration mktime net api_key"
  have s1: "?it s = s1" by (simp add: iteration_def assms(2))
  have shift: "\<And>i. (?it ^^ Suc i) s = (?it ^^ i) s1"
    by (simp only: funpow_shift s1)
  from assms(3) have steps: "\<And>i. i < n \<Longrightarrow> current_date ((?it ^^ i) s1) \<le> end_date \<and>
                   fst (loop_body mktime net api_key ((?it ^^ i) s1)) = None"
    and fin: "(fst y = None \<and> snd y = (?it ^^ n) s1 \<and> end_date < current_date (snd y)) \<or>
              (\<exists>e. fst y = Some e \<and> current_date ((?it ^^ n) s1) \<le> end_date \<and>
                 loop_body mktime net api_key ((?it ^^ n) s1) = (Some e, snd y))"
    unfolding ends_after_def by blast+
  have "\<forall>i<Suc n. current_date ((?it ^^ i) s) \<le> end_date \<and>
                   fst (loop_body mktime net api_key ((?it ^^ i) s)) = None"
  proof (intro allI impI)
    fix i assume i: "i < Suc n"
    show "current_date ((?it ^^ i) s) \<le> end_date \<and>
                   fst (loop_body mktime net api_key ((?it ^^ i) s)) = None"
    proof (cases i)
      case 0
      with assms(1) assms(2) show ?thesis by simp
    next
      case (Suc j)
      with i have "j < n" by simp
      from steps [OF this] show ?thesis unfolding Suc shift .
    qed
  qed
  moreover from fin
  have "(fst y = None \<and> snd y = (?it ^^ Suc n) s \<and> end_date < current_date (snd y)) \<or>
              (\<exists>e. fst y = Some e \<and> current_date ((?it ^^ Suc n) s) \<le> end_date \<and>
                 loop_body mktime net api_key ((?it ^^ Suc n) s) = (Some e, snd y))"
    unfolding shift .
  ultimately show ?thesis unfolding ends_after_def by (intro conjI)
qed


lemma fetch_loop_run:
  assumes "fetch_loop mktime net api_key end_date s = Some y"
  shows "\<exists>n. ends_after mktime net api_key end_date s y n"
proof (rule fetch_loop.raw_induct
    [where P = "\<lambda>mktime net api_key end_date s y. \<exists>n. ends_after mktime net api_key end_date s y n",
      OF _ assms])
  fix f :: "(datetime \<Rightarrow> error + int) \<Rightarrow> (nat \<Rightarrow> request \<Rightarrow> reply) \<Rightarrow> string \<Rightarrow> datetime
              \<Rightarrow> loop_state \<Rightarrow> (error option \<times> loop_state) option"
    and mktime net api_key end_date s y
  assume IH: "\<And>mktime net api_key end_date s y.
                f mktime net api_key end_date s = Some y \<Longrightarrow>
                \<exists>n. ends_after mktime net api_key end_date s y n"
    and eq: "(if current_date s \<le> end_date
              then case loop_body mktime net api_key s of
                     (None, s1) \<Rightarrow> f mktime net api_key end_date s1
                   | (Some e, s1) \<Rightarrow> Some (Some e, s1)
              else Some (None, s)) = Some y"
  show "\<exists>n. ends_after mktime net api_key end_date s y n"
  proof (cases "current_date s \<le> end_date")
    case False
    with eq have "y = (None, s)" by simp
    with ends_after_0_stop [OF False] show ?thesis by blast
  next
    case True
    obtain r s1 where b: "loop_body mktime net api_key s = (r, s1)"
      by (cases "loop_body mktime net api_key s")
    show ?thesis
    proof (cases r)
      case (Some e)
      with eq True b have "y = (Some e, s1)" by simp
      with ends_after_0_raise [OF True] b Some show ?thesis by blast
    next
      case None
      with eq True b have "f mktime net api_key end_date s1 = Some y" by simp
      from IH [OF this] obtain n where "ends_after mktime net api_key end_date s1 y n" ..
      from ends_after_Suc [OF True _ this] b None show ?thesis by blast
    qed
  qed
qed


lemma completed_iteration:
  assumes ok: "fst (loop_body mktime net api_key s) = None"
    and inrange: "current_date s \<le> end_date"
  shows "\<exists>ts. mktime (current_date s) = Inr ts \<and>
     (\<forall>body. net (n_calls (trace s)) (request_for api_key ts) = Response 429 body \<longrightarrow>
        iteration mktime net api_key s =
          s\<lparr>trace := trace s @ [Get (request_for api_key ts), Print RateLimit, Sleep 60]\<rparr> \<and>
        current_date (iteration mktime net api_key s) \<le> end_date \<and>
        (\<exists>rest. trace (iteration mktime net api_key (iteration mktime net api_key s)) =
           trace s @ [Get (request_for api_key ts), Print RateLimit, Sleep 60,
                      Get (request_for api_key ts)] @ rest)) \<and>
     ((\<forall>body. net (n_calls (trace s)) (request_for api_key ts) \<noteq> Response 429 body) \<longrightarrow>
        current_date (iteration mktime net api_key s) = current_date s + one_day) \<and>
     (current_date (iteration mktime net api_key s) = current_date s \<longleftrightarrow>
        (\<exists>body. net (n_calls (trace s)) (request_for api_key ts) = Response 429 body))"
proof -
  let ?s' = "iteration mktime net api_key s"
  obtain ts where ts: "mktime (current_date s) = Inr ts"
  proof (cases "mktime (current_date s)")
    case (Inl e)
    from loop_body_clock [where mktime = mktime and s = s, OF Inl] ok show ?thesis by simp
  next
    case (Inr t)
    then show ?thesis by (rule that)
  qed
  let ?r = "request_for api_key ts"
  have limited: "\<forall>body. net (n_calls (trace s)) ?r = Response 429 body \<longrightarrow>
        ?s' = s\<lparr>trace := trace s @ [Get ?r, Print RateLimit, Sleep 60]\<rparr> \<and>
        current_date ?s' \<le> end_date \<and>
        (\<exists>rest. trace (iteration mktime net api_key ?s') =
           trace s @ [Get ?r, Print RateLimit, Sleep 60, Get ?r] @ rest)"
  proof (intro allI impI)
    fix body
    assume "net (n_calls (trace s)) ?r = Response 429 body"
    from loop_body_429 [where mktime = mktime and net = net and s = s, OF ts this]
    have eq: "?s' = s\<lparr>trace := trace s @ [Get ?r, Print RateLimit, Sleep 60]\<rparr>"
      by (simp add: iteration_def)
    then have same: "current_date ?s' = current_date s"
      and tr: "trace ?s' = trace s @ [Get ?r, Print RateLimit, Sleep 60]" by simp_all
    from ts same have ts': "mktime (current_date ?s') = Inr ts" by simp
    from loop_body_trace [where mktime = mktime and s = "?s'" and net = net and api_key = api_key,
        OF ts'] obtain rest where
      "trace (snd (loop_body mktime net api_key ?s')) = trace ?s' @ Get ?r # rest" by blast
    then have "trace (iteration mktime net api_key ?s') =
           trace s @ [Get ?r, Print RateLimit, Sleep 60, Get ?r] @ rest"
      by (simp only: tr) (simp add: iteration_def)
    with eq same inrange
    show "?s' = s\<lparr>trace := trace s @ [Get ?r, Print RateLimit, Sleep 60]\<rparr> \<and>
        current_date ?s' \<le> end_date \<and>
        (\<exists>rest. trace (iteration mktime net api_key ?s') =
           trace s @ [Get ?r, Print RateLimit, Sleep 60, Get ?r] @ rest)"
      by (intro conjI exI [of _ rest]) simp_all
  qed
  have other: "(\<forall>body. net (n_calls (trace s)) ?r \<noteq> Response 429 body) \<longrightarrow>
        current_date ?s' = current_date s + one_day"
  proof
    assume n: "\<forall>body. net (n_calls (trace s)) ?r \<noteq> Response 429 body"
    note facts = loop_body_other [where mktime = mktime and net = net and s = s
        and api_key = api_key, OF ts n]
    show "current_date ?s' = current_date s + one_day"
    proof (cases "current_date s + one_day \<le> datetime_max")
      case True
      with facts show ?thesis by (simp add: iteration_def)
    next
      case False
      with facts ok show ?thesis by simp
    qed
  qed
  have only: "current_date ?s' = current_date s \<longleftrightarrow>
        (\<exists>body. net (n_calls (trace s)) ?r = Response 429 body)"
  proof
    assume stay: "current_date ?s' = current_date s"
    show "\<exists>body. net (n_calls (trace s)) ?r = Response 429 body"
    proof (rule ccontr)
      assume "\<not> (\<exists>body. net (n_calls (trace s)) ?r = Response 429 body)"
      with other have "current_date ?s' = current_date s + one_day" by simp
      with stay show False by (simp add: one_day_def)
    qed
  next
    assume "\<exists>body. net (n_calls (trace s)) ?r = Response 429 body"
    with limited show "current_date ?s' = current_date s" by auto
  qed
  from ts limited other only show ?thesis by (intro exI [of _ ts] conjI)
qed


lemma fetch_historical_weather_loop:
  assumes "credential API_KEY api_key = Some key" and "key \<noteq> []"
  shows "fetch_historical_weather API_KEY mktime net start_date end_date api_key =
     (case fetch_loop mktime net key end_date (initial start_date end_date) of
        None \<Rightarrow> None
      | Some (Some e, s) \<Rightarrow> Some (Inl e, trace s)
      | Some (None, s) \<Rightarrow>
          Some (Inr (DataFrame (weather_data s)),
                trace s @ [Print (Summary (len (DataFrame (weather_data s))))]))"
  using assms
  by (simp add: fetch_historical_weather_def credential_def initial_def Let_def
      split: option.splits)

text \<open>
  C2. Take a call of \<open>fetch_historical_weather\<close> with a credential that returns. Its run
  is a number of completed iterations of the loop from the initial state, after which the
  loop condition fails (the table is returned) or an iteration raises. In every completed
  iteration the clock gave a timestamp \<open>ts\<close>, and:
  a reply 429 leaves the date and the rows as they are, the iteration having sent the
  request, printed and slept 60 seconds and nothing else (no sleep of 1 second); the loop
  condition still holds, and the next iteration sends the same request again;
  any other outcome moves the current date on by one day;
  so the date stays exactly after a reply 429.
  For every state of the loop, whether the call returns or not: on a reply 429 the
  iteration does as said; on any other outcome it adds one day, or raises OverflowError
  where the day after is beyond the last datetime.
\<close>

theorem rate_limit_retries_same_date:
  assumes "credential API_KEY api_key = Some key"
    and "key \<noteq> []"
    and "fetch_historical_weather API_KEY mktime net start_date end_date api_key = Some (res, tr)"
  shows "(\<exists>n y.
     ends_after mktime net key end_date (initial start_date end_date) y n \<and>
     (fst y = None \<longrightarrow>
        res = Inr (DataFrame (weather_data (snd y))) \<and>
        tr = trace (snd y) @ [Print (Summary (len (DataFrame (weather_data (snd y)))))]) \<and>
     (\<forall>e. fst y = Some e \<longrightarrow> res = Inl e \<and> tr = trace (snd y)) \<and>
     (\<forall>i<n. \<forall>s. s = (iteration mktime net key ^^ i) (initial start_date end_date) \<longrightarrow>
        (\<exists>ts. mktime (current_date s) = Inr ts \<and>
           (\<forall>body. net (n_calls (trace s)) (request_for key ts) = Response 429 body \<longrightarrow>
              iteration mktime net key s =
                s\<lparr>trace := trace s @ [Get (request_for key ts), Print RateLimit, Sleep 60]\<rparr> \<and>
              current_date (iteration mktime net key s) \<le> end_date \<and>
              (\<exists>rest. trace (iteration mktime net key (iteration mktime net key s)) =
                 trace s @ [Get (request_for key ts), Print RateLimit, Sleep 60,
                            Get (request_for key ts)] @ rest)) \<and>
           ((\<forall>body. net (n_calls (trace s)) (request_for key ts) \<noteq> Response 429 body) \<longrightarrow>
              current_date (iteration mktime net key s) = current_date s + one_day) \<and>
           (current_date (iteration mktime net key s) = current_date s \<longleftrightarrow>
              (\<exists>body. net (n_calls (trace s)) (request_for key ts) = Response 429 body))))) \<and>
    (\<forall>s ts body. mktime (current_date s) = Inr ts \<and>
        net (n_calls (trace s)) (request_for key ts) = Response 429 body \<longrightarrow>
        loop_body mktime net key s =
          (None, s\<lparr>trace := trace s @ [Get (request_for key ts), Print RateLimit, Sleep 60]\<rparr>)) \<and>
    (\<forall>s ts. mktime (current_date s) = Inr ts \<and>
        (\<forall>body. net (n_calls (trace s)) (request_for key ts) \<noteq> Response 429 body) \<longrightarrow>
        (current_date s + one_day \<le> datetime_max \<longrightarrow>
           fst (loop_body mktime net key s) = None \<and>
           current_date (snd (loop_body mktime net key s)) = current_date s + one_day) \<and>
        (datetime_max < current_date s + one_day \<longrightarrow>
           fst (loop_body mktime net key s) = Some OverflowError))"
proof (intro conjI)
  let ?init = "initial start_date end_date"
  let ?it = "iteration mktime net key"
  from assms(3) obtain y where
    loop: "fetch_loop mktime net key end_date ?init = Some y"
    and fin: "case y of
        (None, s) \<Rightarrow> res = Inr (DataFrame (weather_data s)) \<and>
                      tr = trace s @ [Print (Summary (len (DataFrame (weather_data s))))]
      | (Some e, s) \<Rightarrow> res = Inl e \<and> tr = trace s"
    unfolding fetch_historical_weather_loop [where mktime = mktime and net = net,
        OF assms(1) assms(2)]
    by (auto split: option.splits prod.splits)
  from fetch_loop_run [OF loop] obtain n where
    run: "ends_after mktime net key end_date ?init y n" ..
  have f1: "fst y = None \<longrightarrow>
        res = Inr (DataFrame (weather_data (snd y))) \<and>
        tr = trace (snd y) @ [Print (Summary (len (DataFrame (weather_data (snd y)))))]"
    using fin by (cases y) auto
  have f2: "\<forall>e. fst y = Some e \<longrightarrow> res = Inl e \<and> tr = trace (snd y)"
    using fin by (cases y) auto
  have steps: "\<forall>i<n. \<forall>s. s = (?it ^^ i) ?init \<longrightarrow>
        (\<exists>ts. mktime (current_date s) = Inr ts \<and>
           (\<forall>body. net (n_calls (trace s)) (request_for key ts) = Response 429 body \<longrightarrow>
              ?it s = s\<lparr>trace := trace s @ [Get (request_for key ts), Print RateLimit, Sleep 60]\<rparr> \<and>
              current_date (?it s) \<le> end_date \<and>
              (\<exists>rest. trace (?it (?it s)) =
                 trace s @ [Get (request_for key ts), Print RateLimit, Sleep 60,
                            Get (request_for key ts)] @ rest)) \<and>
           ((\<forall>body. net (n_calls (trace s)) (request_for key ts) \<noteq> Response 429 body) \<longrightarrow>
              current_date (?it s) = current_date s + one_day) \<and>
           (current_date (?it s) = current_date s \<longleftrightarrow>
              (\<exists>body. net (n_calls (trace s)) (request_for key ts) = Response 429 body)))"
  proof (intro allI impI)
    fix i s
    assume i: "i < n" and s: "s = (?it ^^ i) ?init"
    from run i have "current_date ((?it ^^ i) ?init) \<le> end_date \<and>
        fst (loop_body mktime net key ((?it ^^ i) ?init)) = None"
      unfolding ends_after_def by blast
    then have "fst (loop_body mktime net key s) = None" "current_date s \<le> end_date"
      unfolding s by simp_all
    from completed_iteration [where mktime = mktime and net = net, OF this]
    show "\<exists>ts. mktime (current_date s) = Inr ts \<and>
           (\<forall>body. net (n_calls (trace s)) (request_for key ts) = Response 429 body \<longrightarrow>
              ?it s = s\<lparr>trace := trace s @ [Get (request_for key ts), Print RateLimit, Sleep 60]\<rparr> \<and>
              current_date (?it s) \<le> end_date \<and>
              (\<exists>rest. trace (?it (?it s)) =
                 trace s @ [Get (request_for key ts), Print RateLimit, Sleep 60,
                            Get (request_for key ts)] @ rest)) \<and>
           ((\<forall>body. net (n_calls (trace s)) (request_for key ts) \<noteq> Response 429 body) \<longrightarrow>
              current_date (?it s) = current_date s + one_day) \<and>
           (current_date (?it s) = current_date s \<longleftrightarrow>
              (\<exists>body. net (n_calls (trace s)) (request_for key ts) = Response 429 body))" .
  qed
  from run f1 f2 steps
  show "\<exists>n y.
     ends_after mktime net key end_date ?init y n \<and>
     (fst y = None \<longrightarrow>
        res = Inr (DataFrame (weather_data (snd y))) \<and>
        tr = trace (snd y) @ [Print (Summary (len (DataFrame (weather_data (snd y)))))]) \<and>
     (\<forall>e. fst y = Some e \<longrightarrow> res = Inl e \<and> tr = trace (snd y)) \<and>
     (\<forall>i<n. \<forall>s. s = (?it ^^ i) ?init \<longrightarrow>
        (\<exists>ts. mktime (current_date s) = Inr ts \<and>
           (\<forall>body. net (n_calls (trace s)) (request_for key ts) = Response 429 body \<longrightarrow>
              ?it s = s\<lparr>trace := trace s @ [Get (request_for key ts), Print RateLimit, Sleep 60]\<rparr> \<and>
              current_date (?it s) \<le> end_date \<and>
              (\<exists>rest. trace (?it (?it s)) =
                 trace s @ [Get (request_for key ts), Print RateLimit, Sleep 60,
                            Get (request_for key ts)] @ rest)) \<and>
           ((\<forall>body. net (n_calls (trace s)) (request_for key ts) \<noteq> Response 429 body) \<longrightarrow>
              current_date (?it s) = current_date s + one_day) \<and>
           (current_date (?it s) = current_date s \<longleftrightarrow>
              (\<exists>body. net (n_calls (trace s)) (request_for key ts) = Response 429 body))))"
    by (intro exI [of _ n] exI [of _ y] conjI)
next
  show "\<forall>s ts body. mktime (current_date s) = Inr ts \<and>
        net (n_calls (trace s)) (request_for key ts) = Response 429 body \<longrightarrow>
        loop_body mktime net key s =
          (None, s\<lparr>trace := trace s @ [Get (request_for key ts), Print RateLimit, Sleep 60]\<rparr>)"
    using loop_body_429 [where mktime = mktime and net = net and api_key = key] by blast
next
  show "\<forall>s ts. mktime (current_date s) = Inr ts \<and>
        (\<forall>body. net (n_calls (trace s)) (request_for key ts) \<noteq> Response 429 body) \<longrightarrow>
        (current_date s + one_day \<le> datetime_max \<longrightarrow>
           fst (loop_body mktime net key s) = None \<and>
           current_date (snd (loop_body mktime net key s)) = current_date s + one_day) \<and>
        (datetime_max < current_date s + one_day \<longrightarrow>
           fst (loop_body mktime net key s) = Some OverflowError)"
    using loop_body_other [where mktime = mktime and net = net and api_key = key] by blast
qed


section \<open>A run with a rate limit\<close>

theorem rate_limit_retries_same_date_witness:
  "fetch_historical_weather (Some ''key'') (\<lambda>t. Inr (t div 1000000))
     (\<lambda>n r. if n = 0 then Response 429 (Inl (KeyError ''current''))
             else Response 200 (Inr \<lparr>temp = Num 41, feels_like = Num 38, humidity = Num 60,
                    clouds = Num 75, wind_speed = Num 5, weather_main = Str ''Clouds'',
                    weather_desc = Str ''broken clouds''\<rparr>))
     0 0 None =
   Some (Inr [(''date'', [DateV 0]), (''temp'', [Num 41]), (''feels_like'', [Num 38]),
              (''humidity'', [Num 60]), (''clouds'', [Num 75]), (''wind_speed'', [Num 5]),
              (''weather_main'', [Str ''Clouds'']), (''weather_desc'', [Str ''broken clouds''])],
         [Print (Fetching 0 0),
          Get (request_for ''key'' 0), Print RateLimit, Sleep 60,
          Get (request_for ''key'' 0), Print (Fetched 0), Sleep 1,
          Print (Summary 1)]) \<and>
   loop_body (\<lambda>t. Inr (t div 1000000))
     (\<lambda>n r. if n = 0 then Response 429 (Inl (KeyError ''current''))
             else Response 200 (Inr \<lparr>temp = Num 41, feels_like = Num 38, humidity = Num 60,
                    clouds = Num 75, wind_speed = Num 5, weather_main = Str ''Clouds'',
                    weather_desc = Str ''broken clouds''\<rparr>))
     ''key'' (initial 0 0) =
   (None, \<lparr>current_date = 0, weather_data = [],
           trace = [Print (Fetching 0 0), Get (request_for ''key'' 0), Print RateLimit, Sleep 60]\<rparr>)"
proof -
  let ?mk = "\<lambda>t::int. Inr (t div 1000000) :: error + int"
  let ?obs = "\<lparr>temp = Num 41, feels_like = Num 38, humidity = Num 60,
                    clouds = Num 75, wind_speed = Num 5, weather_main = Str ''Clouds'',
                    weather_desc = Str ''broken clouds''\<rparr>"
  let ?net = "\<lambda>(n::nat) (r::request). if n = 0 then Response 429 (Inl (KeyError ''current''))
             else Response 200 (Inr ?obs)"
  let ?r = "request_for ''key'' 0"
  let ?s0 = "initial 0 0"
  let ?s1 = "\<lparr>current_date = 0, weather_data = [],
              trace = [Print (Fetching 0 0), Get ?r, Print RateLimit, Sleep 60]\<rparr>"
  let ?s2 = "\<lparr>current_date = 86400000000, weather_data = [(0, ?obs)],
              trace = [Print (Fetching 0 0), Get ?r, Print RateLimit, Sleep 60,
                       Get ?r, Print (Fetched 0), Sleep 1]\<rparr>"
  have s0: "?s0 = \<lparr>current_date = 0, weather_data = [], trace = [Print (Fetching 0 0)]\<rparr>"
    by (simp add: initial_def date_of_def)
  have b1: "loop_body ?mk ?net ''key'' ?s0 = (None, ?s1)"
    unfolding s0
    by (simp add: loop_body_def try_block_def request_for_def n_calls_def)
  have b2: "loop_body ?mk ?net ''key'' ?s1 = (None, ?s2)"
    by (simp add: loop_body_def try_block_def request_for_def n_calls_def date_of_def one_day_def
        advance_def add_day_def datetime_max_def)
  have l1: "fetch_loop ?mk ?net ''key'' 0 ?s0 = fetch_loop ?mk ?net ''key'' 0 ?s1"
    by (rule fetch_loop_continue [OF _ b1]) (simp add: s0)
  have l2: "fetch_loop ?mk ?net ''key'' 0 ?s1 = fetch_loop ?mk ?net ''key'' 0 ?s2"
    by (rule fetch_loop_continue [OF _ b2]) simp
  have l3: "fetch_loop ?mk ?net ''key'' 0 ?s2 = Some (None, ?s2)"
    by (rule fetch_loop_stop) simp
  have loop: "fetch_loop ?mk ?net ''key'' 0 ?s0 = Some (None, ?s2)"
    by (simp only: l1 l2 l3)
  have cred: "credential (Some ''key'') None = Some ''key''" and key: "''key'' \<noteq> []"
    by (simp_all add: credential_def)
  have run: "fetch_historical_weather (Some ''key'') ?mk ?net 0 0 None =
      Some (Inr [(''date'', [DateV 0]), (''temp'', [Num 41]), (''feels_like'', [Num 38]),
              (''humidity'', [Num 60]), (''clouds'', [Num 75]), (''wind_speed'', [Num 5]),
              (''weather_main'', [Str ''Clouds'']), (''weather_desc'', [Str ''broken clouds''])],
         [Print (Fetching 0 0), Get ?r, Print RateLimit, Sleep 60,
          Get ?r, Print (Fetched 0), Sleep 1, Print (Summary 1)])"
    unfolding fetch_historical_weather_loop [where mktime = ?mk and net = ?net, OF cred key] loop
    by (simp add: DataFrame_def len_def)
  have clock: "?mk (current_date ?s0) = Inr 0" by (simp add: s0)
  have reply: "?net (n_calls (trace ?s0)) (request_for ''key'' 0) =
                 Response 429 (Inl (KeyError ''current''))"
    by (simp add: s0 n_calls_def)
  from rate_limit_retries_same_date [where mktime = ?mk and net = ?net, OF cred key run]
  have "\<forall>s ts body. ?mk (current_date s) = Inr ts \<and>
        ?net (n_calls (trace s)) (request_for ''key'' ts) = Response 429 body \<longrightarrow>
        loop_body ?mk ?net ''key'' s =
          (None, s\<lparr>trace := trace s @ [Get (request_for ''key'' ts), Print RateLimit, Sleep 60]\<rparr>)"
    by (elim conjE)
  from this [rule_format, of ?s0 0, OF conjI [OF clock reply]]
  have "loop_body ?mk ?net ''key'' ?s0 =
          (None, ?s0\<lparr>trace := trace ?s0 @ [Get ?r, Print RateLimit, Sleep 60]\<rparr>)" .
  then have "loop_body ?mk ?net ''key'' ?s0 = (None, ?s1)"
    by (simp add: s0)
  with run show ?thesis by (intro conjI)
qed

section \<open>A reversed range\<close>

text \<open>
  C3. For a start date after the end date, the function (given a credential: the argument
  or else the environment's, not empty) returns the empty table and never calls the
  network: the loop body is not entered, and the call only prints its two lines.
\<close>

theorem fetch_reversed_range:
  assumes "end_date < start_date"
    and "credential API_KEY api_key = Some key"
    and "key \<noteq> []"
  shows "\<exists>tr. fetch_historical_weather API_KEY mktime net start_date end_date api_key
                = Some (Inr [], tr) \<and>
              n_calls tr = 0 \<and>
              tr = [Print (Fetching (date_of start_date) (date_of end_date)), Print (Summary 0)]"
proof -
  have "\<not> current_date (initial start_date end_date) \<le> end_date"
    using assms(1) by (simp add: initial_def)
  from fetch_loop_stop [OF this]
  have "fetch_loop mktime net key end_date (initial start_date end_date) =
          Some (None, initial start_date end_date)" .
  then show ?thesis
    unfolding fetch_historical_weather_loop [where mktime = mktime and net = net,
        OF assms(2) assms(3)]
    by (simp add: initial_def DataFrame_def len_def n_calls_def)
qed

theorem fetch_reversed_range_witness:
  "fetch_historical_weather None (\<lambda>t. Inr (t div 1000000))
     (\<lambda>n r. Response 200 (Inl (KeyError ''current'')))
     86400000000 0 (Some ''key'') =
   Some (Inr [], [Print (Fetching 1 0), Print (Summary 0)])"
proof -
  have a: "(0::int) < 86400000000" by simp
  have b: "credential None (Some ''key'') = Some ''key''" and c: "''key'' \<noteq> []"
    by (simp_all add: credential_def)
  from fetch_reversed_range [where mktime = "\<lambda>t. Inr (t div 1000000)"
      and net = "\<lambda>n r. Response 200 (Inl (KeyError ''current''))", OF a b c]
  show ?thesis by (simp add: date_of_def one_day_def)
qed

section \<open>A rejected credential\<close>

text \<open>
  C1 at a range of two days, the first answered 401 and the second 200: the \<open>ValueError\<close>
  raised for the 401 is caught by the handler of the same iteration, which prints it and
  moves on; the call returns the table with the second day's row.
\<close>

theorem fetch_continues_after_401:
  "fetch_historical_weather None (\<lambda>t. Inr (t div 1000000))
     (\<lambda>n r. if n = 0 then Response 401 (Inl (KeyError ''current''))
             else Response 200 (Inr \<lparr>temp = Num 41, feels_like = Num 38, humidity = Num 60,
                    clouds = Num 75, wind_speed = Num 5, weather_main = Str ''Clouds'',
                    weather_desc = Str ''broken clouds''\<rparr>))
     0 86400000000 (Some ''key'') =
   Some (Inr [(''date'', [DateV 1]), (''temp'', [Num 41]), (''feels_like'', [Num 38]),
              (''humidity'', [Num 60]), (''clouds'', [Num 75]), (''wind_speed'', [Num 5]),
              (''weather_main'', [Str ''Clouds'']), (''weather_desc'', [Str ''broken clouds''])],
         [Print (Fetching 0 1),
          Get (request_for ''key'' 0),
          Print (FetchError 0 (ValueError ''Invalid API key'')),
          Get (request_for ''key'' 86400),
          Print (Fetched 1), Sleep 1,
          Print (Summary 1)])"
proof -
  let ?mk = "\<lambda>t::int. Inr (t div 1000000) :: error + int"
  let ?obs = "\<lparr>temp = Num 41, feels_like = Num 38, humidity = Num 60,
                    clouds = Num 75, wind_speed = Num 5, weather_main = Str ''Clouds'',
                    weather_desc = Str ''broken clouds''\<rparr>"
  let ?net = "\<lambda>(n::nat) (r::request). if n = 0 then Response 401 (Inl (KeyError ''current''))
             else Response 200 (Inr ?obs)"
  let ?s0 = "initial 0 86400000000"
  let ?s1 = "\<lparr>current_date = 86400000000, weather_data = [],
              trace = [Print (Fetching 0 1), Get (request_for ''key'' 0),
                       Print (FetchError 0 (ValueError ''Invalid API key''))]\<rparr>"
  let ?s2 = "\<lparr>current_date = 172800000000, weather_data = [(1, ?obs)],
              trace = [Print (Fetching 0 1), Get (request_for ''key'' 0),
                       Print (FetchError 0 (ValueError ''Invalid API key'')),
                       Get (request_for ''key'' 86400), Print (Fetched 1), Sleep 1]\<rparr>"
  have s0: "?s0 = \<lparr>current_date = 0, weather_data = [], trace = [Print (Fetching 0 1)]\<rparr>"
    by (simp add: initial_def date_of_def one_day_def)
  have b1: "loop_body ?mk ?net ''key'' ?s0 = (None, ?s1)"
    unfolding s0
    by (simp add: loop_body_def try_block_def request_for_def n_calls_def date_of_def one_day_def
        advance_def add_day_def datetime_max_def)
  have b2: "loop_body ?mk ?net ''key'' ?s1 = (None, ?s2)"
    by (simp add: loop_body_def try_block_def request_for_def n_calls_def date_of_def one_day_def
        advance_def add_day_def datetime_max_def)
  have l1: "fetch_loop ?mk ?net ''key'' 86400000000 ?s0 = fetch_loop ?mk ?net ''key'' 86400000000 ?s1"
    by (rule fetch_loop_continue [OF _ b1]) (simp add: s0)
  have l2: "fetch_loop ?mk ?net ''key'' 86400000000 ?s1 = fetch_loop ?mk ?net ''key'' 86400000000 ?s2"
    by (rule fetch_loop_continue [OF _ b2]) simp
  have l3: "fetch_loop ?mk ?net ''key'' 86400000000 ?s2 = Some (None, ?s2)"
    by (rule fetch_loop_stop) simp
  have loop: "fetch_loop ?mk ?net ''key'' 86400000000 ?s0 = Some (None, ?s2)"
    by (simp only: l1 l2 l3)
  have cred: "credential None (Some ''key'') = Some ''key''" and key: "''key'' \<noteq> []"
    by (simp_all add: credential_def)
  show ?thesis
    unfolding fetch_historical_weather_loop [where mktime = ?mk and net = ?net, OF cred key] loop
    by (simp add: DataFrame_def len_def)
qed

end
